theory Spec2Isabelle
  imports Complex_Main "HOL-Library.Log_Nat"
begin

section \<open>Python values and the interpreter operations the program uses\<close>

text \<open>
  The program (\<^verbatim>\<open>app.py\<close>) works on the values that \<^verbatim>\<open>json.loads\<close> and
  \<^verbatim>\<open>Response.json()\<close> produce: \<^verbatim>\<open>None\<close>, booleans, integers, floats, strings, lists
  and dictionaries with string keys. A dictionary is an association list read with
  \<open>map_of\<close> (a parsed JSON object has no duplicate keys). A string is given by its
  UTF-8 encoding, as a \<open>string\<close> of bytes (see the section on strings).

  Numbers: a Python \<^verbatim>\<open>int\<close> is an \<open>int\<close>; a Python \<^verbatim>\<open>float\<close> is an IEEE 754
  double, modelled in the next section.
\<close>

section \<open>Floating-point numbers\<close>

text \<open>
  A double by its value: a finite number (\<open>Fin 0\<close> is \<open>+0.0\<close>), the negative zero, the
  two infinities, or NaN. Every operation gives its exact result rounded to the nearest
  double, ties to the even significand (\<open>rnd\<close>): for \<open>q \<noteq> 0\<close>, with \<open>2 ^ e\<close> the power of
  two at or below \<open>\<bar>q\<bar>\<close> (and \<open>e\<close> at least \<open>-1022\<close>, where the subnormal numbers
  begin), the doubles around \<open>\<bar>q\<bar>\<close> are the multiples of \<open>u = 2 ^ (e - 52)\<close>; a result of
  \<open>2 ^ 1024\<close> or more is an infinity, and a result below the smallest subnormal number is a
  zero with the sign of \<open>q\<close>.
\<close>

datatype double = Fin rat | NegZero | PosInf | NegInf | NaN

definition pow2 :: "int \<Rightarrow> rat" where
  "pow2 k = (if 0 \<le> k then 2 ^ nat k else 1 / 2 ^ nat (- k))"

text \<open>
  \<open>ilog2 a\<close> is the integer \<open>e\<close> with \<open>2 ^ e \<le> a < 2 ^ (e + 1)\<close>, for \<open>a > 0\<close>: the bit
  lengths of the numerator and the denominator give it up to one, and one comparison
  decides.
\<close>

definition ilog2 :: "rat \<Rightarrow> int" where
  "ilog2 a =
     (let k = bitlen (fst (quotient_of a)) - bitlen (snd (quotient_of a))
      in if pow2 k \<le> a then k else k - 1)"

definition round_half_even :: "rat \<Rightarrow> int" where
  "round_half_even x =
     (let f = \<lfloor>x\<rfloor>; r = x - of_int f
      in if r < 1 / 2 then f else if 1 / 2 < r then f + 1 else if even f then f else f + 1)"

definition rnd :: "rat \<Rightarrow> double" where
  "rnd q =
     (if q = 0 then Fin 0
      else
        (let a = \<bar>q\<bar>;
             e = max (ilog2 a) (- 1022);
             u = pow2 (e - 52);
             m = round_half_even (a / u);
             v = of_int m * u
         in if pow2 1024 \<le> v then (if 0 < q then PosInf else NegInf)
            else if m = 0 then (if 0 < q then Fin 0 else NegZero)
            else Fin (if 0 < q then v else - v)))"

definition is_zero :: "double \<Rightarrow> bool" where
  "is_zero x = (x = Fin 0 \<or> x = NegZero)"

definition is_inf :: "double \<Rightarrow> bool" where
  "is_inf x = (x = PosInf \<or> x = NegInf)"

text \<open>The sign bit (of a number; NaN is never asked).\<close>

fun negative :: "double \<Rightarrow> bool" where
  "negative (Fin q) = (q < 0)"
| "negative NegZero = True"
| "negative NegInf = True"
| "negative x = False"

definition signed_zero :: "bool \<Rightarrow> double" where
  "signed_zero neg = (if neg then NegZero else Fin 0)"

definition signed_inf :: "bool \<Rightarrow> double" where
  "signed_inf neg = (if neg then NegInf else PosInf)"

text \<open>
  \<^verbatim>\<open>x + y\<close>. Opposite infinities give NaN; a zero added to a number gives that number
  (\<open>-0.0\<close> only from two negative zeros), and two finite numbers that cancel give
  \<open>+0.0\<close>. No exception is raised: a sum too large is an infinity.
\<close>

definition fadd :: "double \<Rightarrow> double \<Rightarrow> double" where
  "fadd x y =
     (if x = NaN \<or> y = NaN then NaN
      else if x = PosInf then (if y = NegInf then NaN else PosInf)
      else if x = NegInf then (if y = PosInf then NaN else NegInf)
      else if is_inf y then y
      else if x = NegZero then y
      else if y = NegZero then x
      else
        (case (x, y) of
           (Fin a, Fin b) \<Rightarrow>
             if a = 0 then Fin b
             else if b = 0 then Fin a
             else if a + b = 0 then Fin 0
             else rnd (a + b)
         | _ \<Rightarrow> NaN))"

text \<open>\<^verbatim>\<open>x * y\<close>: the sign of the result is the exclusive or of the signs.\<close>

definition fmul :: "double \<Rightarrow> double \<Rightarrow> double" where
  "fmul x y =
     (if x = NaN \<or> y = NaN then NaN
      else if is_inf x \<or> is_inf y then
        (if is_zero x \<or> is_zero y then NaN else signed_inf (negative x \<noteq> negative y))
      else if is_zero x \<or> is_zero y then signed_zero (negative x \<noteq> negative y)
      else
        (case (x, y) of
           (Fin a, Fin b) \<Rightarrow> rnd (a * b)
         | _ \<Rightarrow> NaN))"

text \<open>
  The IEEE quotient, and Python's \<^verbatim>\<open>x / y\<close>: Python raises \<^verbatim>\<open>ZeroDivisionError\<close> on
  a divisor that is a zero, whatever the dividend, and gives the IEEE quotient otherwise.
\<close>

definition ieee_div :: "double \<Rightarrow> double \<Rightarrow> double" where
  "ieee_div x y =
     (if x = NaN \<or> y = NaN then NaN
      else if is_inf x then (if is_inf y then NaN else signed_inf (negative x \<noteq> negative y))
      else if is_inf y then signed_zero (negative x \<noteq> negative y)
      else if is_zero y then
        (if is_zero x then NaN else signed_inf (negative x \<noteq> negative y))
      else if is_zero x then signed_zero (negative x \<noteq> negative y)
      else
        (case (x, y) of
           (Fin a, Fin b) \<Rightarrow> rnd (a / b)
         | _ \<Rightarrow> NaN))"

text \<open>\<^verbatim>\<open>x > 0\<close> and \<^verbatim>\<open>x >= 0\<close>: false on NaN.\<close>

fun gt_zero :: "double \<Rightarrow> bool" where
  "gt_zero (Fin q) = (0 < q)"
| "gt_zero PosInf = True"
| "gt_zero x = False"

fun ge_zero :: "double \<Rightarrow> bool" where
  "ge_zero (Fin q) = (0 \<le> q)"
| "ge_zero NegZero = True"
| "ge_zero PosInf = True"
| "ge_zero x = False"

section \<open>Python values\<close>

datatype pyval =
    PNone
  | PBool bool
  | PInt int
  | PFloat double
  | PStr string
  | PList "pyval list"
  | PDict "(string \<times> pyval) list"

text \<open>
  Exceptions, each with the text that \<^verbatim>\<open>str(e)\<close> gives. \<open>JSONDecodeError\<close>,
  \<open>HTTPError\<close> and \<open>RequestException\<close> come from the libraries and carry the
  library's message; the others are raised by the interpreter, with CPython's wording
  (no theorem below depends on that wording).
\<close>

datatype exn =
    JSONDecodeError string
  | HTTPError string
  | RequestException string
  | KeyError string
  | IndexError string
  | TypeError string
  | AttributeError string
  | ValueError string
  | ZeroDivisionError string
  | OverflowError string

fun str_exn :: "exn \<Rightarrow> string" where
  "str_exn (JSONDecodeError m) = m"
| "str_exn (HTTPError m) = m"
| "str_exn (RequestException m) = m"
| "str_exn (KeyError m) = m"
| "str_exn (IndexError m) = m"
| "str_exn (TypeError m) = m"
| "str_exn (AttributeError m) = m"
| "str_exn (ValueError m) = m"
| "str_exn (ZeroDivisionError m) = m"
| "str_exn (OverflowError m) = m"

definition quote :: "string \<Rightarrow> string" where
  "quote s = [CHR 0x27] @ s @ [CHR 0x27]"

fun type_name :: "pyval \<Rightarrow> string" where
  "type_name PNone = ''NoneType''"
| "type_name (PBool _) = ''bool''"
| "type_name (PInt _) = ''int''"
| "type_name (PFloat _) = ''float''"
| "type_name (PStr _) = ''str''"
| "type_name (PList _) = ''list''"
| "type_name (PDict _) = ''dict''"

text \<open>Truthiness, as \<^verbatim>\<open>if x:\<close>, \<^verbatim>\<open>not x\<close> and \<^verbatim>\<open>x or y\<close> read it.\<close>

fun truthy :: "pyval \<Rightarrow> bool" where
  "truthy PNone = False"
| "truthy (PBool b) = b"
| "truthy (PInt n) = (n \<noteq> 0)"
| "truthy (PFloat x) = (\<not> is_zero x)"
| "truthy (PStr s) = (s \<noteq> [])"
| "truthy (PList xs) = (xs \<noteq> [])"
| "truthy (PDict kvs) = (kvs \<noteq> [])"

definition py_or :: "pyval \<Rightarrow> pyval \<Rightarrow> pyval" where
  "py_or a b = (if truthy a then a else b)"

text \<open>\<^verbatim>\<open>x.get(key, default)\<close>: only a dictionary has the method.\<close>

fun py_get :: "pyval \<Rightarrow> string \<Rightarrow> pyval \<Rightarrow> exn + pyval" where
  "py_get (PDict kvs) k d = Inr (case map_of kvs k of Some v \<Rightarrow> v | None \<Rightarrow> d)"
| "py_get v k d =
     Inl (AttributeError (quote (type_name v) @ '' object has no attribute '' @ quote ''get''))"

text \<open>
  The characters of a string: in UTF-8 a character is one byte that is no continuation
  byte (\<open>0x80\<close> to \<open>0xBF\<close>) followed by its continuation bytes.
\<close>

definition is_continuation :: "char \<Rightarrow> bool" where
  "is_continuation c = (let n = (of_char c :: nat) in 128 \<le> n \<and> n < 192)"

function code_points :: "string \<Rightarrow> string list" where
  "code_points [] = []"
| "code_points (c # s) =
     (c # takeWhile is_continuation s) # code_points (dropWhile is_continuation s)"
  by pat_completeness auto
termination
  by (relation "measure length") (auto intro: le_imp_less_Suc length_dropWhile_le)

text \<open>\<^verbatim>\<open>for x in v\<close>: the elements of a list, the characters of a string, the keys of a
  dictionary; any other value is not iterable.\<close>

fun py_iter :: "pyval \<Rightarrow> exn + pyval list" where
  "py_iter (PList xs) = Inr xs"
| "py_iter (PStr s) = Inr (map PStr (code_points s))"
| "py_iter (PDict kvs) = Inr (map (\<lambda>kv. PStr (fst kv)) kvs)"
| "py_iter v = Inl (TypeError (quote (type_name v) @ '' object is not iterable''))"

text \<open>
  \<^verbatim>\<open>float(v)\<close>. An integer is converted to the nearest double, and raises
  \<^verbatim>\<open>OverflowError\<close> when that is beyond the largest one. A float is itself, a boolean is
  1.0 or 0.0. The grammar by which the builtin reads a string is not part of the program:
  it is the parameter \<open>parse\<close>, which gives the double a string denotes, or \<open>None\<close>
  where the builtin raises \<^verbatim>\<open>ValueError\<close>.
\<close>

definition int_to_double :: "int \<Rightarrow> exn + double" where
  "int_to_double n =
     (if is_inf (rnd (of_int n)) then Inl (OverflowError ''int too large to convert to float'')
      else Inr (rnd (of_int n)))"

fun py_float :: "(string \<Rightarrow> double option) \<Rightarrow> pyval \<Rightarrow> exn + double" where
  "py_float parse (PInt n) = int_to_double n"
| "py_float parse (PFloat x) = Inr x"
| "py_float parse (PBool b) = Inr (Fin (if b then 1 else 0))"
| "py_float parse (PStr s) =
     (case parse s of
        Some x \<Rightarrow> Inr x
      | None \<Rightarrow> Inl (ValueError (''could not convert string to float: '' @ quote s)))"
| "py_float parse v =
     Inl (TypeError (''float() argument must be a string or a real number, not '' @
                     quote (type_name v)))"

section \<open>The aggregator: \<^verbatim>\<open>_safe_sum\<close>\<close>

text \<open>
  \<^verbatim>\<open>
  def _safe_sum(items):
      total = 0.0
      for it in items or []:
          try:
              total += float(it.get("price", 0) or 0)
          except Exception:
              pass
      return total
  \<close>
  \<open>price_float\<close> is the expression inside the \<^verbatim>\<open>try\<close>; the loop keeps the running
  total and skips an item whose expression raises. The iteration itself is outside the
  \<^verbatim>\<open>try\<close>, so a value that cannot be iterated raises out of the function.
\<close>

definition price_float :: "(string \<Rightarrow> double option) \<Rightarrow> pyval \<Rightarrow> exn + double" where
  "price_float parse it =
     (case py_get it ''price'' (PInt 0) of
        Inl e \<Rightarrow> Inl e
      | Inr v \<Rightarrow> py_float parse (py_or v (PInt 0)))"

fun safe_sum_loop :: "(string \<Rightarrow> double option) \<Rightarrow> pyval list \<Rightarrow> double \<Rightarrow> double" where
  "safe_sum_loop parse [] tot = tot"
| "safe_sum_loop parse (it # its) tot =
     safe_sum_loop parse its
       (case price_float parse it of Inr x \<Rightarrow> fadd tot x | Inl _ \<Rightarrow> tot)"

definition safe_sum :: "(string \<Rightarrow> double option) \<Rightarrow> pyval \<Rightarrow> exn + double" where
  "safe_sum parse items =
     (case py_iter (py_or items (PList [])) of
        Inl e \<Rightarrow> Inl e
      | Inr its \<Rightarrow> Inr (safe_sum_loop parse its (Fin 0)))"

text \<open>
  The vocabulary of the claim about the sum. An item has the numeric price \<open>p\<close> when it
  is a dictionary whose \<^verbatim>\<open>price\<close> is a number or a non-empty numeric string, and
  \<open>p\<close> is the double that \<^verbatim>\<open>float(price or 0)\<close> gives: the nearest double of an
  integer within range, the float itself (\<open>+0.0\<close> for a zero, which \<^verbatim>\<open>or\<close> replaces by
  the integer 0), the number that the string denotes. It has the integer price \<open>n\<close> when
  the \<^verbatim>\<open>price\<close> is the integer \<open>n\<close>.

  The price of an item is missing or unparsable when the item has no \<^verbatim>\<open>price\<close> key
  (or is no dictionary at all), or when the value under the key is one that \<^verbatim>\<open>float\<close>
  rejects: \<^verbatim>\<open>None\<close>, a list, a dictionary, a string that denotes no number, or an integer
  too large for a double.

  Two doubles are the same number when they are equal or both are zeros (which differ in
  the sign bit at most; Python's \<^verbatim>\<open>==\<close> holds between them).
\<close>

fun numeric_price :: "(string \<Rightarrow> double option) \<Rightarrow> pyval \<Rightarrow> double \<Rightarrow> bool" where
  "numeric_price parse (PDict kvs) p =
     (case map_of kvs ''price'' of
        Some (PInt n) \<Rightarrow> int_to_double n = Inr p
      | Some (PFloat x) \<Rightarrow> p = (if is_zero x then Fin 0 else x)
      | Some (PStr s) \<Rightarrow> s \<noteq> [] \<and> parse s = Some p
      | _ \<Rightarrow> False)"
| "numeric_price parse v p = False"

fun int_price :: "pyval \<Rightarrow> int \<Rightarrow> bool" where
  "int_price (PDict kvs) n = (map_of kvs ''price'' = Some (PInt n))"
| "int_price v n = False"

fun unparsable :: "(string \<Rightarrow> double option) \<Rightarrow> pyval \<Rightarrow> bool" where
  "unparsable parse PNone = True"
| "unparsable parse (PList xs) = True"
| "unparsable parse (PDict kvs) = True"
| "unparsable parse (PStr s) = (parse s = None)"
| "unparsable parse (PInt n) = is_inf (rnd (of_int n))"
| "unparsable parse v = False"

fun price_missing :: "(string \<Rightarrow> double option) \<Rightarrow> pyval \<Rightarrow> bool" where
  "price_missing parse (PDict kvs) =
     (case map_of kvs ''price'' of None \<Rightarrow> True | Some v \<Rightarrow> unparsable parse v)"
| "price_missing parse v = True"

definition same_number :: "double \<Rightarrow> double \<Rightarrow> bool" where
  "same_number x y = (x = y \<or> (is_zero x \<and> is_zero y))"

section \<open>Strings\<close>

text \<open>
  A Python \<^verbatim>\<open>str\<close> is modelled by its UTF-8 encoding: a \<open>string\<close> whose characters
  are the bytes. ASCII text is itself; the symbols of the user interface are written as
  their bytes.

  \<^verbatim>\<open>str.lower()\<close> is used by the program only to compare a status with the ASCII words
  \<^verbatim>\<open>succeeded\<close> and \<^verbatim>\<open>failed\<close>. \<open>lower\<close> maps the letters \<open>A\<close> to \<open>Z\<close> to \<open>a\<close> to
  \<open>z\<close> and leaves every other byte; Python also lower-cases letters outside ASCII, but
  no such letter becomes one of the letters of these two words, so the comparisons agree.

  \<^verbatim>\<open>str.strip()\<close> removes from both ends the characters for which \<^verbatim>\<open>str.isspace\<close> holds.
  \<open>whitespace\<close> lists them all, each by its encoding: U+0009 to U+000D, U+001C to
  U+001F, U+0020, U+0085, U+00A0, U+1680, U+2000 to U+200A, U+2028, U+2029, U+202F,
  U+205F and U+3000. \<open>leading_space ws s\<close> is the number of bytes of the member of \<open>ws\<close>
  that \<open>s\<close> starts with (0 when it starts with none); \<open>lstrip_by ws\<close> removes such
  members from the front as long as there is one. The end of the string is stripped as
  the front of its reversal. In UTF-8 no character's encoding is the beginning or the end
  of another's, so on encoded text this removes exactly the whitespace characters.

  \<^verbatim>\<open>lower\<close> and \<^verbatim>\<open>strip\<close> are methods of \<^verbatim>\<open>str\<close> only: on any other value the
  attribute lookup raises.
\<close>

definition lower_char :: "char \<Rightarrow> char" where
  "lower_char c =
     (let n = (of_char c :: nat) in if 65 \<le> n \<and> n \<le> 90 then char_of (n + 32) else c)"

definition lower :: "string \<Rightarrow> string" where
  "lower s = map lower_char s"

definition whitespace :: "string list" where
  "whitespace =
     [[CHR 0x09], [CHR 0x0A], [CHR 0x0B], [CHR 0x0C], [CHR 0x0D],
      [CHR 0x1C], [CHR 0x1D], [CHR 0x1E], [CHR 0x1F], [CHR 0x20],
      [CHR 0xC2, CHR 0x85], [CHR 0xC2, CHR 0xA0],
      [CHR 0xE1, CHR 0x9A, CHR 0x80],
      [CHR 0xE2, CHR 0x80, CHR 0x80], [CHR 0xE2, CHR 0x80, CHR 0x81],
      [CHR 0xE2, CHR 0x80, CHR 0x82], [CHR 0xE2, CHR 0x80, CHR 0x83],
      [CHR 0xE2, CHR 0x80, CHR 0x84], [CHR 0xE2, CHR 0x80, CHR 0x85],
      [CHR 0xE2, CHR 0x80, CHR 0x86], [CHR 0xE2, CHR 0x80, CHR 0x87],
      [CHR 0xE2, CHR 0x80, CHR 0x88], [CHR 0xE2, CHR 0x80, CHR 0x89],
      [CHR 0xE2, CHR 0x80, CHR 0x8A],
      [CHR 0xE2, CHR 0x80, CHR 0xA8], [CHR 0xE2, CHR 0x80, CHR 0xA9],
      [CHR 0xE2, CHR 0x80, CHR 0xAF],
      [CHR 0xE2, CHR 0x81, CHR 0x9F],
      [CHR 0xE3, CHR 0x80, CHR 0x80]]"

definition leading_space :: "string list \<Rightarrow> string \<Rightarrow> nat" where
  "leading_space ws s =
     (case find (\<lambda>w. take (length w) s = w) ws of Some w \<Rightarrow> length w | None \<Rightarrow> 0)"

fun lstrip_by :: "string list \<Rightarrow> string \<Rightarrow> string" where
  "lstrip_by ws [] = []"
| "lstrip_by ws (c # s) =
     (if leading_space ws (c # s) = 0 then c # s
      else lstrip_by ws (drop (leading_space ws (c # s) - 1) s))"

definition strip :: "string \<Rightarrow> string" where
  "strip s = rev (lstrip_by (map rev whitespace) (rev (lstrip_by whitespace s)))"

fun py_lower :: "pyval \<Rightarrow> exn + string" where
  "py_lower (PStr s) = Inr (lower s)"
| "py_lower v =
     Inl (AttributeError (quote (type_name v) @ '' object has no attribute '' @ quote ''lower''))"

fun py_strip :: "pyval \<Rightarrow> exn + string" where
  "py_strip (PStr s) = Inr (strip s)"
| "py_strip v =
     Inl (AttributeError (quote (type_name v) @ '' object has no attribute '' @ quote ''strip''))"

text \<open>\<^verbatim>\<open>sep.join(xs)\<close> on a list of strings.\<close>

fun join :: "string \<Rightarrow> string list \<Rightarrow> string" where
  "join sep [] = []"
| "join sep [x] = x"
| "join sep (x # y # ys) = x @ sep @ join sep (y # ys)"

section \<open>The HTTP collaborators\<close>

text \<open>
  A \<^verbatim>\<open>requests\<close> response, by what the program reads of it:
  \<^verbatim>\<open>raise_for_status()\<close> raises \<^verbatim>\<open>HTTPError\<close> (here: gives its message) on an error
  status and does nothing otherwise; \<^verbatim>\<open>headers.get(name)\<close>; \<^verbatim>\<open>json()\<close> gives the parsed
  body or raises \<^verbatim>\<open>JSONDecodeError\<close> (its message); \<^verbatim>\<open>text\<close> is the raw body.
  A request itself either gives a response or raises a \<^verbatim>\<open>RequestException\<close> that is
  not an \<^verbatim>\<open>HTTPError\<close> (connection failure, timeout), given by its message.
\<close>

record response =
  raise_for_status :: "string option"
  headers :: "string \<Rightarrow> string option"
  json :: "string + pyval"
  resp_text :: string

text \<open>
  The OCR service. \<open>analyze bs\<close> answers the submission of the bytes \<open>bs\<close>;
  \<open>operation loc i\<close> answers the poll number \<open>i\<close> (counted from 0) of the operation
  location \<open>loc\<close>. What the function does to the outside world is logged as a list of
  effects, in order.
\<close>

record ocr_service =
  analyze :: "string \<Rightarrow> string + response"
  operation :: "pyval \<Rightarrow> nat \<Rightarrow> string + response"

datatype effect = Post string | Get pyval | Sleep nat

section \<open>The receipt transcription client: \<^verbatim>\<open>extract_text_from_receipt\<close>\<close>

definition warning_sign :: string where
  "warning_sign = [CHR 0xE2, CHR 0x9A, CHR 0xA0, CHR 0xEF, CHR 0xB8, CHR 0x8F]"

definition no_location_msg :: string where
  "no_location_msg = warning_sign @ '' OCR did not return a valid Operation-Location.''"

definition no_text_msg :: string where
  "no_text_msg = warning_sign @ '' No text found on this receipt.''"

definition failed_msg :: string where
  "failed_msg = warning_sign @ '' OCR failed to process the receipt.''"

definition timeout_msg :: string where
  "timeout_msg = warning_sign @ '' OCR timed out while reading the receipt.''"

definition ocr_error_msg :: "exn \<Rightarrow> string" where
  "ocr_error_msg e = warning_sign @ '' OCR error: '' @ str_exn e"

text \<open>
  Lines 90 to 92: the submission, its status check, and the operation location
  \<^verbatim>\<open>submit.headers.get("Operation-Location") or submit.json().get("operationLocation")\<close>.
  The body is parsed only when the header is absent or empty.
\<close>

definition op_location :: "response \<Rightarrow> exn + pyval" where
  "op_location submit =
     (case headers submit ''Operation-Location'' of
        Some h \<Rightarrow>
          if h \<noteq> [] then Inr (PStr h)
          else (case json submit of
                  Inl m \<Rightarrow> Inl (JSONDecodeError m)
                | Inr body \<Rightarrow> py_get body ''operationLocation'' PNone)
      | None \<Rightarrow>
          (case json submit of
             Inl m \<Rightarrow> Inl (JSONDecodeError m)
           | Inr body \<Rightarrow> py_get body ''operationLocation'' PNone))"

definition submit_job :: "ocr_service \<Rightarrow> string \<Rightarrow> exn + pyval" where
  "submit_job srv file_bytes =
     (case analyze srv file_bytes of
        Inl m \<Rightarrow> Inl (RequestException m)
      | Inr submit \<Rightarrow>
          (case raise_for_status submit of
             Some m \<Rightarrow> Inl (HTTPError m)
           | None \<Rightarrow> op_location submit))"

text \<open>Lines 103 to 110: the branch taken on the status \<^verbatim>\<open>succeeded\<close>.\<close>

fun line_loop :: "pyval list \<Rightarrow> string list \<Rightarrow> exn + string list" where
  "line_loop [] lines = Inr lines"
| "line_loop (line # rest) lines =
     (case py_get line ''text'' (PStr []) of
        Inl e \<Rightarrow> Inl e
      | Inr t \<Rightarrow>
          (case py_strip t of
             Inl e \<Rightarrow> Inl e
           | Inr txt \<Rightarrow> line_loop rest (if txt \<noteq> [] then lines @ [txt] else lines)))"

fun page_loop :: "pyval list \<Rightarrow> string list \<Rightarrow> exn + string list" where
  "page_loop [] lines = Inr lines"
| "page_loop (page # rest) lines =
     (case py_get page ''lines'' (PList []) of
        Inl e \<Rightarrow> Inl e
      | Inr ls \<Rightarrow>
          (case py_iter ls of
             Inl e \<Rightarrow> Inl e
           | Inr page_lines \<Rightarrow>
               (case line_loop page_lines lines of
                  Inl e \<Rightarrow> Inl e
                | Inr lines' \<Rightarrow> page_loop rest lines')))"

definition succeeded_text :: "pyval \<Rightarrow> exn + string" where
  "succeeded_text result =
     (case py_get result ''analyzeResult'' (PDict []) of
        Inl e \<Rightarrow> Inl e
      | Inr analyze_result \<Rightarrow>
          (case py_get analyze_result ''readResults'' (PList []) of
             Inl e \<Rightarrow> Inl e
           | Inr read_results \<Rightarrow>
               (case py_iter read_results of
                  Inl e \<Rightarrow> Inl e
                | Inr pages \<Rightarrow>
                    (case page_loop pages [] of
                       Inl e \<Rightarrow> Inl e
                     | Inr lines \<Rightarrow>
                         Inr (if lines \<noteq> [] then join [CHR 0x0A] lines else no_text_msg)))))"

text \<open>
  Lines 97 to 112: one pass of the loop body on the answer to the poll, up to the sleep.
  The outcome is an exception, \<open>Some s\<close> when the body returns \<open>s\<close>, or \<open>None\<close> when
  it falls through to \<^verbatim>\<open>time.sleep(1)\<close>.
\<close>

definition poll_body :: "string + response \<Rightarrow> exn + string option" where
  "poll_body answer =
     (case answer of
        Inl m \<Rightarrow> Inl (RequestException m)
      | Inr poll \<Rightarrow>
          (case raise_for_status poll of
             Some m \<Rightarrow> Inl (HTTPError m)
           | None \<Rightarrow>
               (case json poll of
                  Inl m \<Rightarrow> Inl (JSONDecodeError m)
                | Inr result \<Rightarrow>
                    (case py_get result ''status'' (PStr []) of
                       Inl e \<Rightarrow> Inl e
                     | Inr st \<Rightarrow>
                         (case py_lower st of
                            Inl e \<Rightarrow> Inl e
                          | Inr status \<Rightarrow>
                              if status = ''succeeded'' then
                                (case succeeded_text result of
                                   Inl e \<Rightarrow> Inl e
                                 | Inr s \<Rightarrow> Inr (Some s))
                              else if status = ''failed'' then Inr (Some failed_msg)
                              else Inr None)))))"

text \<open>
  \<^verbatim>\<open>for _ in range(60)\<close>: \<open>poll_loop srv loc k n trace\<close> runs the \<open>n\<close> passes that are
  left when \<open>k\<close> polls have been made, and gives the outcome with the trace of effects
  (\<open>trace\<close> holds the effects so far).
  The outcome \<open>Inr None\<close> is the loop running out; the function then returns the
  timeout message. Any exception is caught by the \<^verbatim>\<open>except Exception\<close> around the
  whole body and turned into a message.
\<close>

fun poll_loop ::
  "ocr_service \<Rightarrow> pyval \<Rightarrow> nat \<Rightarrow> nat \<Rightarrow> effect list \<Rightarrow> (exn + string option) \<times> effect list"
where
  "poll_loop srv loc k 0 trace = (Inr None, trace)"
| "poll_loop srv loc k (Suc n) trace =
     (case poll_body (operation srv loc k) of
        Inl e \<Rightarrow> (Inl e, trace @ [Get loc])
      | Inr (Some s) \<Rightarrow> (Inr (Some s), trace @ [Get loc])
      | Inr None \<Rightarrow> poll_loop srv loc (Suc k) n (trace @ [Get loc, Sleep 1]))"

definition extract_text_from_receipt :: "ocr_service \<Rightarrow> string \<Rightarrow> string \<times> effect list" where
  "extract_text_from_receipt srv file_bytes =
     (case submit_job srv file_bytes of
        Inl e \<Rightarrow> (ocr_error_msg e, [Post file_bytes])
      | Inr loc \<Rightarrow>
          if \<not> truthy loc then (no_location_msg, [Post file_bytes])
          else
            (case poll_loop srv loc 0 60 [Post file_bytes] of
               (Inl e, trace) \<Rightarrow> (ocr_error_msg e, trace)
             | (Inr (Some s), trace) \<Rightarrow> (s, trace)
             | (Inr None, trace) \<Rightarrow> (timeout_msg, trace)))"

subsection \<open>Vocabulary of the claims about polling\<close>

text \<open>
  What a poll was answered with, as the claims speak of it. The status of a poll is
  \<^emph>\<open>pending\<close> when the request went through, the body is a JSON object, and its
  \<^verbatim>\<open>status\<close> is absent or is a string that is, in lower case, neither
  \<^verbatim>\<open>succeeded\<close> nor \<^verbatim>\<open>failed\<close>. The status \<^emph>\<open>is\<close> \<open>w\<close> when the object
  carries a \<^verbatim>\<open>status\<close> string whose lower-case form is \<open>w\<close>.
\<close>

definition pending :: "string + response \<Rightarrow> bool" where
  "pending answer =
     (case answer of
        Inl m \<Rightarrow> False
      | Inr poll \<Rightarrow>
          raise_for_status poll = None \<and>
          (case json poll of
             Inr (PDict kvs) \<Rightarrow>
               (case map_of kvs ''status'' of
                  None \<Rightarrow> True
                | Some (PStr s) \<Rightarrow> lower s \<noteq> ''succeeded'' \<and> lower s \<noteq> ''failed''
                | Some v \<Rightarrow> False)
           | _ \<Rightarrow> False))"

definition status_is :: "string \<Rightarrow> string + response \<Rightarrow> bool" where
  "status_is w answer =
     (case answer of
        Inl m \<Rightarrow> False
      | Inr poll \<Rightarrow>
          raise_for_status poll = None \<and>
          (case json poll of
             Inr (PDict kvs) \<Rightarrow>
               (case map_of kvs ''status'' of Some (PStr s) \<Rightarrow> lower s = w | _ \<Rightarrow> False)
           | _ \<Rightarrow> False))"

text \<open>
  The result pages of an answer, in the shape the OCR service documents:
  \<^verbatim>\<open>{analyzeResult: {readResults: [{lines: [{text: ...}]}]}}\<close>. \<open>read_results answer tss\<close>
  holds when the answer carries the pages \<open>tss\<close>, each page the list of the texts of
  its lines, in order (objects may carry other keys as well). \<open>kept_lines\<close> is the
  flattening the specification describes: all lines, page by page, each trimmed, the empty
  ones dropped.
\<close>

fun line_text :: "pyval \<Rightarrow> string \<Rightarrow> bool" where
  "line_text (PDict kvs) t = (map_of kvs ''text'' = Some (PStr t))"
| "line_text v t = False"

fun page_texts :: "pyval \<Rightarrow> string list \<Rightarrow> bool" where
  "page_texts (PDict kvs) ts =
     (case map_of kvs ''lines'' of Some (PList ls) \<Rightarrow> list_all2 line_text ls ts | _ \<Rightarrow> False)"
| "page_texts v ts = False"

definition read_results :: "string + response \<Rightarrow> string list list \<Rightarrow> bool" where
  "read_results answer tss =
     (case answer of
        Inr poll \<Rightarrow>
          (case json poll of
             Inr (PDict kvs) \<Rightarrow>
               (case map_of kvs ''analyzeResult'' of
                  Some (PDict ar) \<Rightarrow>
                    (case map_of ar ''readResults'' of
                       Some (PList pages) \<Rightarrow> list_all2 page_texts pages tss
                     | _ \<Rightarrow> False)
                | _ \<Rightarrow> False)
           | _ \<Rightarrow> False)
      | Inl m \<Rightarrow> False)"

definition kept_lines :: "string list list \<Rightarrow> string list" where
  "kept_lines pages = filter (\<lambda>t. t \<noteq> []) (map strip (concat pages))"

text \<open>The number of polls in a trace of effects.\<close>

fun is_poll :: "effect \<Rightarrow> bool" where
  "is_poll (Get loc) = True"
| "is_poll e = False"

definition polls :: "effect list \<Rightarrow> nat" where
  "polls trace = length (filter is_poll trace)"

text \<open>
  A submission response carries no job handle when the \<^verbatim>\<open>Operation-Location\<close> header is
  absent or empty and the body holds no operation location either: it is no JSON at
  all, or no JSON object, or an object whose \<^verbatim>\<open>operationLocation\<close> is absent or
  falsy (\<^verbatim>\<open>null\<close>, the empty string).
\<close>

definition no_job_handle :: "response \<Rightarrow> bool" where
  "no_job_handle submit =
     ((case headers submit ''Operation-Location'' of None \<Rightarrow> True | Some h \<Rightarrow> h = []) \<and>
      (case json submit of
         Inl m \<Rightarrow> True
       | Inr (PDict kvs) \<Rightarrow>
           (case map_of kvs ''operationLocation'' of None \<Rightarrow> True | Some v \<Rightarrow> \<not> truthy v)
       | Inr v \<Rightarrow> True))"

section \<open>The user interface\<close>

text \<open>
  What the program shows is a list of Streamlit calls, in order. The argument of
  \<^verbatim>\<open>st.write\<close> is kept as the pieces of its f-string: a literal, a float under the
  format \<^verbatim>\<open>:.nf\<close> (\<open>Fixed n x\<close>; the digits are not computed here), or a value shown as
  \<^verbatim>\<open>str\<close> gives it.
\<close>

datatype fragment = Lit string | Fixed nat double | Str pyval

datatype ui =
    StError string
  | StWrite "fragment list"
  | StJson pyval
  | StSubheader string
  | StTable pyval

section \<open>The classification client: \<^verbatim>\<open>classify_items_with_ai\<close>\<close>

text \<open>Subscription \<^verbatim>\<open>v[key]\<close> with a string key, and \<^verbatim>\<open>v[0]\<close>.\<close>

fun py_item :: "pyval \<Rightarrow> string \<Rightarrow> exn + pyval" where
  "py_item (PDict kvs) k =
     (case map_of kvs k of Some v \<Rightarrow> Inr v | None \<Rightarrow> Inl (KeyError (quote k)))"
| "py_item (PList xs) k = Inl (TypeError ''list indices must be integers or slices, not str'')"
| "py_item (PStr s) k = Inl (TypeError (''string indices must be integers, not '' @ quote ''str''))"
| "py_item v k = Inl (TypeError (quote (type_name v) @ '' object is not subscriptable''))"

fun py_first :: "pyval \<Rightarrow> exn + pyval" where
  "py_first (PList []) = Inl (IndexError ''list index out of range'')"
| "py_first (PList (x # xs)) = Inr x"
| "py_first (PStr []) = Inl (IndexError ''string index out of range'')"
| "py_first (PStr (c # s)) = Inr (PStr (c # takeWhile is_continuation s))"
| "py_first (PDict kvs) = Inl (KeyError ''0'')"
| "py_first v = Inl (TypeError (quote (type_name v) @ '' object is not subscriptable''))"

text \<open>\<^verbatim>\<open>payload["choices"][0]["message"]["content"]\<close>\<close>

definition completion_content :: "pyval \<Rightarrow> exn + pyval" where
  "completion_content payload =
     (case py_item payload ''choices'' of
        Inl e \<Rightarrow> Inl e
      | Inr choices \<Rightarrow>
          (case py_first choices of
             Inl e \<Rightarrow> Inl e
           | Inr choice \<Rightarrow>
               (case py_item choice ''message'' of
                  Inl e \<Rightarrow> Inl e
                | Inr message \<Rightarrow> py_item message ''content'')))"

text \<open>
  \<^verbatim>\<open>json.loads(content)\<close>. The JSON grammar is the library's: \<open>loads\<close> gives the value
  a string denotes, or the message of the \<^verbatim>\<open>JSONDecodeError\<close> raised on a string that
  is not JSON. An argument that is not a string is a \<^verbatim>\<open>TypeError\<close>.
\<close>

fun py_json_loads :: "(string \<Rightarrow> string + pyval) \<Rightarrow> pyval \<Rightarrow> exn + pyval" where
  "py_json_loads loads (PStr s) =
     (case loads s of Inl m \<Rightarrow> Inl (JSONDecodeError m) | Inr v \<Rightarrow> Inr v)"
| "py_json_loads loads v =
     Inl (TypeError (''the JSON object must be str, bytes or bytearray, not '' @ type_name v))"

text \<open>
  Lines 63 to 66, the body of the \<^verbatim>\<open>try\<close> once the request has answered. A failure
  gives the exception together with \<^verbatim>\<open>payload\<close> if that local was bound when it was
  raised (the first handler asks \<^verbatim>\<open>"payload" in locals()\<close>).
\<close>

definition classify_try ::
  "(string \<Rightarrow> string + pyval) \<Rightarrow> response \<Rightarrow> (exn \<times> pyval option) + pyval"
where
  "classify_try loads resp =
     (case raise_for_status resp of
        Some m \<Rightarrow> Inl (HTTPError m, None)
      | None \<Rightarrow>
          (case json resp of
             Inl m \<Rightarrow> Inl (JSONDecodeError m, None)
           | Inr payload \<Rightarrow>
               (case completion_content payload of
                  Inl e \<Rightarrow> Inl (e, Some payload)
                | Inr content \<Rightarrow>
                    (case py_json_loads loads content of
                       Inl e \<Rightarrow> Inl (e, Some payload)
                     | Inr data \<Rightarrow> Inr data))))"

definition invalid_json_msg :: string where
  "invalid_json_msg = ''AI did not return valid JSON. Showing raw content:''"

definition unexpected_msg :: "exn \<Rightarrow> string" where
  "unexpected_msg e = ''Unexpected error calling Azure OpenAI: '' @ str_exn e"

text \<open>
  Lines 67 to 80, the three handlers in the order of the source: \<^verbatim>\<open>JSONDecodeError\<close>,
  \<^verbatim>\<open>HTTPError\<close>, any other exception. The outcome is the value returned, or an
  exception raised inside a handler, with what was shown. The first handler evaluates
  the content expression again when \<^verbatim>\<open>payload\<close> is bound.
\<close>

fun classify_except :: "response \<Rightarrow> pyval option \<Rightarrow> exn \<Rightarrow> (exn + pyval) \<times> ui list" where
  "classify_except resp payload (JSONDecodeError m) =
     (case payload of
        None \<Rightarrow> (Inr PNone, [StError invalid_json_msg, StWrite [Str (PStr ''(no content)'')]])
      | Some p \<Rightarrow>
          (case completion_content p of
             Inl e \<Rightarrow> (Inl e, [StError invalid_json_msg])
           | Inr content \<Rightarrow> (Inr PNone, [StError invalid_json_msg, StWrite [Str content]])))"
| "classify_except resp payload (HTTPError m) =
     (Inr PNone,
      [StError ''Azure OpenAI HTTP error'',
       (case json resp of
          Inr body \<Rightarrow> StJson body
        | Inl _ \<Rightarrow> StWrite [Str (PStr (resp_text resp))])])"
| "classify_except resp payload e = (Inr PNone, [StError (unexpected_msg e)])"

text \<open>
  The function: \<open>completions\<close> answers the request that carries the grocery text. A
  request that raises leaves \<^verbatim>\<open>resp\<close> unbound and is caught by the last handler.
\<close>

definition classify_items_with_ai ::
  "(string \<Rightarrow> string + pyval) \<Rightarrow> (string \<Rightarrow> string + response) \<Rightarrow> string \<Rightarrow>
     (exn + pyval) \<times> ui list"
where
  "classify_items_with_ai loads completions grocery_text =
     (case completions grocery_text of
        Inl m \<Rightarrow> (Inr PNone, [StError (unexpected_msg (RequestException m))])
      | Inr resp \<Rightarrow>
          (case classify_try loads resp of
             Inr data \<Rightarrow> (Inr data, [])
           | Inl (e, payload) \<Rightarrow> classify_except resp payload e))"

section \<open>The analysis of a classification (lines 181 to 212 and 237 to 268)\<close>

definition summary_title :: string where
  "summary_title = [CHR 0xF0, CHR 0x9F, CHR 0x93, CHR 0x8A] @ '' Summary''"

definition savings_title :: string where
  "savings_title = [CHR 0xF0, CHR 0x9F, CHR 0x92, CHR 0xB0] @ '' Potential Savings''"

definition suggestions_title :: string where
  "suggestions_title = [CHR 0xF0, CHR 0x9F, CHR 0x93, CHR 0x9D] @ '' Suggestions''"

definition essentials_title :: string where
  "essentials_title = [CHR 0xE2, CHR 0x9C, CHR 0x85] @ '' Essentials''"

definition non_essentials_title :: string where
  "non_essentials_title = [CHR 0xF0, CHR 0x9F, CHR 0x9A, CHR 0xAB] @ '' Non-Essentials''"

text \<open>Python's float division raises on a divisor that is a zero.\<close>

definition py_truediv :: "double \<Rightarrow> double \<Rightarrow> exn + double" where
  "py_truediv a b =
     (if is_zero b then Inl (ZeroDivisionError ''float division by zero'')
      else Inr (ieee_div a b))"

definition summary_section :: "double \<Rightarrow> double \<Rightarrow> double \<Rightarrow> ui list" where
  "summary_section total_spent essentials_total non_essentials_total =
     [StSubheader summary_title,
      StWrite [Lit ''**Total Spent:** Rs.'', Fixed 2 total_spent],
      StWrite [Lit ''**Essentials:** Rs.'', Fixed 2 essentials_total],
      StWrite [Lit ''**Non-Essentials:** Rs.'', Fixed 2 non_essentials_total]]"

text \<open>
  The two lines of the savings block; \<open>ratio\<close> is the quotient
  \<^verbatim>\<open>saving / total_spent\<close>, which the f-string multiplies by the integer 100.
\<close>

definition remove_line :: "double \<Rightarrow> double \<Rightarrow> ui" where
  "remove_line saving_remove ratio =
     StWrite [Lit ''Remove all non-essentials: Save **Rs.'', Fixed 2 saving_remove,
              Lit ''** ('', Fixed 1 (fmul ratio (Fin 100)), Lit ''%)'']"

definition half_line :: "string \<Rightarrow> double \<Rightarrow> double \<Rightarrow> ui" where
  "half_line half_prefix saving_half ratio =
     StWrite [Lit half_prefix, Fixed 2 saving_half,
              Lit ''** ('', Fixed 1 (fmul ratio (Fin 100)), Lit ''%)'']"

text \<open>
  The block under \<^verbatim>\<open>if total_spent > 0\<close>. Each result is what was shown and the
  exception that ended the block, if any. The two tabs differ in one literal only, the
  text before the halved saving, which is the parameter \<open>half_prefix\<close>.
\<close>

definition text_half_prefix :: string where
  "text_half_prefix = ''Reduce non-essentials by 50%: Save **Rs.''"

definition receipt_half_prefix :: string where
  "receipt_half_prefix = ''Reduce non-essentials by 50%: Save **Rs.D:''"

definition savings_section ::
  "string \<Rightarrow> double \<Rightarrow> double \<Rightarrow> double \<Rightarrow> ui list \<times> exn option"
where
  "savings_section half_prefix total_spent saving_remove saving_half =
     (if gt_zero total_spent then
        (case py_truediv saving_remove total_spent of
           Inl e \<Rightarrow> ([StSubheader savings_title], Some e)
         | Inr r \<Rightarrow>
             (case py_truediv saving_half total_spent of
                Inl e \<Rightarrow> ([StSubheader savings_title, remove_line saving_remove r], Some e)
              | Inr h \<Rightarrow>
                  ([StSubheader savings_title, remove_line saving_remove r,
                    half_line half_prefix saving_half h], None)))
      else ([], None))"

definition suggestions_section :: "pyval \<Rightarrow> ui list \<times> exn option" where
  "suggestions_section suggestions =
     (if truthy suggestions then
        (case py_iter suggestions of
           Inl e \<Rightarrow> ([StSubheader suggestions_title], Some e)
         | Inr ss \<Rightarrow>
             (StSubheader suggestions_title # map (\<lambda>s. StWrite [Lit ''- '', Str s]) ss, None))
      else ([], None))"

definition tables_section :: "pyval \<Rightarrow> pyval \<Rightarrow> ui list" where
  "tables_section essentials non_essentials =
     [StSubheader essentials_title, StTable essentials,
      StSubheader non_essentials_title, StTable non_essentials]"

text \<open>
  The analysis of a result. The sums, \<^verbatim>\<open>total_spent = essentials_total +
  non_essentials_total\<close>, \<^verbatim>\<open>saving_remove = non_essentials_total\<close> and
  \<^verbatim>\<open>saving_half = non_essentials_total / 2.0\<close> come before anything is shown.
\<close>

definition analysis ::
  "string \<Rightarrow> (string \<Rightarrow> double option) \<Rightarrow> pyval \<Rightarrow> ui list \<times> exn option"
where
  "analysis half_prefix parse data =
     (if \<not> truthy data then ([], None)
      else
        (case py_get data ''essentials'' (PList []) of
           Inl e \<Rightarrow> ([], Some e)
         | Inr essentials \<Rightarrow>
        (case py_get data ''non_essentials'' (PList []) of
           Inl e \<Rightarrow> ([], Some e)
         | Inr non_essentials \<Rightarrow>
        (case py_get data ''suggestions'' (PList []) of
           Inl e \<Rightarrow> ([], Some e)
         | Inr suggestions \<Rightarrow>
        (case safe_sum parse essentials of
           Inl e \<Rightarrow> ([], Some e)
         | Inr essentials_total \<Rightarrow>
        (case safe_sum parse non_essentials of
           Inl e \<Rightarrow> ([], Some e)
         | Inr non_essentials_total \<Rightarrow>
        (case py_truediv non_essentials_total (Fin 2) of
           Inl e \<Rightarrow> ([], Some e)
         | Inr saving_half \<Rightarrow>
             (let total_spent = fadd essentials_total non_essentials_total;
                  saving_remove = non_essentials_total;
                  shown = summary_section total_spent essentials_total non_essentials_total
              in case savings_section half_prefix total_spent saving_remove saving_half of
                   (savings, Some e) \<Rightarrow> (shown @ savings, Some e)
                 | (savings, None) \<Rightarrow>
                     (case suggestions_section suggestions of
                        (rest, Some e) \<Rightarrow> (shown @ savings @ rest, Some e)
                      | (rest, None) \<Rightarrow>
                          (shown @ savings @ rest @ tables_section essentials non_essentials,
                           None))))))))))"

subsection \<open>Vocabulary of the claims about the classification\<close>

text \<open>
  A complete \<^verbatim>\<open>ClassificationResult\<close>: an object that holds the three sequences
  \<^verbatim>\<open>essentials\<close>, \<^verbatim>\<open>non_essentials\<close> and \<^verbatim>\<open>suggestions\<close>.
\<close>

fun is_sequence :: "pyval option \<Rightarrow> bool" where
  "is_sequence (Some (PList xs)) = True"
| "is_sequence v = False"

fun complete_result :: "pyval \<Rightarrow> bool" where
  "complete_result (PDict kvs) =
     (is_sequence (map_of kvs ''essentials'') \<and>
      is_sequence (map_of kvs ''non_essentials'') \<and>
      is_sequence (map_of kvs ''suggestions''))"
| "complete_result v = False"

text \<open>
  The three sequences, empty: what the callers put in the place of an absent key with
  \<^verbatim>\<open>data.get(key, [])\<close>.
\<close>

definition empty_sequences :: "(string \<times> pyval) list" where
  "empty_sequences =
     [(''essentials'', PList []), (''non_essentials'', PList []), (''suggestions'', PList [])]"

section \<open>Example collaborators\<close>

text \<open>
  Concrete services and answers at which the theorems below are instantiated.
  \<open>nbsp\<close> and \<open>ideographic_space\<close> are the characters U+00A0 and U+3000;
  \<open>padded_pages\<close> is a result whose lines are padded with them. \<open>accepted\<close> is the usual answer to a submission: an empty body and the operation
  location in the header. \<open>slow_service\<close> never finishes; \<open>third_poll_service\<close>
  answers the third poll with the given result; \<open>bare_service\<close> accepts the
  submission but sends neither the header nor a JSON body; \<open>keyless_service\<close> accepts
  it with a JSON object that has no \<^verbatim>\<open>operationLocation\<close>.
\<close>

definition ok_response :: "pyval \<Rightarrow> response" where
  "ok_response body =
     \<lparr>raise_for_status = None, headers = (\<lambda>name. None), json = Inr body, resp_text = []\<rparr>"

definition accepted :: response where
  "accepted =
     \<lparr>raise_for_status = None,
      headers = [''Operation-Location'' \<mapsto> ''https://ocr.example/operations/1''],
      json = Inl ''Expecting value: line 1 column 1 (char 0)'',
      resp_text = []\<rparr>"

definition job_url :: pyval where
  "job_url = PStr ''https://ocr.example/operations/1''"

definition running :: pyval where
  "running = PDict [(''status'', PStr ''running'')]"

definition two_pages_fields :: "(string \<times> pyval) list" where
  "two_pages_fields =
     [(''status'', PStr ''Succeeded''),
      (''analyzeResult'',
       PDict [(''readResults'',
               PList [PDict [(''page'', PInt 1),
                             (''lines'', PList [PDict [(''text'', PStr '' Milk 3 '')],
                                                PDict [(''text'', PStr ''   '')]])],
                      PDict [(''page'', PInt 2),
                             (''lines'', PList [PDict [(''text'', PStr ''Chips 4'')]])]])])]"

definition two_pages :: pyval where
  "two_pages = PDict two_pages_fields"

definition nbsp :: string where
  "nbsp = [CHR 0xC2, CHR 0xA0]"

definition ideographic_space :: string where
  "ideographic_space = [CHR 0xE3, CHR 0x80, CHR 0x80]"

definition padded_pages :: pyval where
  "padded_pages =
     PDict [(''status'', PStr ''succeeded''),
            (''analyzeResult'',
             PDict [(''readResults'',
                     PList [PDict [(''lines'', PList [PDict [(''text'', PStr '' Milk 3 '')],
                                                      PDict [(''text'', PStr nbsp)]])],
                            PDict [(''lines'',
                                    PList [PDict [(''text'',
                                      PStr (nbsp @ ''Chips 4'' @ ideographic_space))]])]])])]"

definition slow_service :: ocr_service where
  "slow_service =
     \<lparr>analyze = (\<lambda>bs. Inr accepted), operation = (\<lambda>loc i. Inr (ok_response running))\<rparr>"

definition third_poll_service :: "pyval \<Rightarrow> ocr_service" where
  "third_poll_service final =
     \<lparr>analyze = (\<lambda>bs. Inr accepted),
      operation = (\<lambda>loc i. Inr (ok_response (if i = 2 then final else running)))\<rparr>"

definition bare_response :: response where
  "bare_response =
     \<lparr>raise_for_status = None,
      headers = (\<lambda>name. None),
      json = Inl ''Expecting value: line 1 column 1 (char 0)'',
      resp_text = []\<rparr>"

definition bare_service :: ocr_service where
  "bare_service =
     \<lparr>analyze = (\<lambda>bs. Inr bare_response), operation = (\<lambda>loc i. Inr (ok_response running))\<rparr>"

definition keyless_service :: ocr_service where
  "keyless_service =
     \<lparr>analyze = (\<lambda>bs. Inr (ok_response (PDict [(''error'', PStr ''busy'')]))),
      operation = (\<lambda>loc i. Inr (ok_response running))\<rparr>"

text \<open>
  \<open>float_example\<close> stands for the builtin \<^verbatim>\<open>float\<close> on the strings used below: it
  reads \<^verbatim>\<open>"2.50"\<close> as 2.5 and rejects everything else (such as \<^verbatim>\<open>"n/a"\<close>).
\<close>

definition float_example :: "string \<Rightarrow> double option" where
  "float_example s = (if s = ''2.50'' then Some (Fin (5 / 2)) else None)"


text \<open>
  Integer prices: \<open>2 ^ 53\<close> with two prices of 1, and \<open>10 ^ 400\<close> (too large for a double)
  with a price of 2.
\<close>

definition large_prices :: "pyval list" where
  "large_prices =
     [PDict [(''item'', PStr ''Generator''), (''price'', PInt 9007199254740992)],
      PDict [(''item'', PStr ''Gum''), (''price'', PInt 1)],
      PDict [(''item'', PStr ''Salt''), (''price'', PInt 1)]]"

definition huge_prices :: "pyval list" where
  "huge_prices =
     [PDict [(''item'', PStr ''Yacht''), (''price'', PInt (10 ^ 400))],
      PDict [(''item'', PStr ''Gum''), (''price'', PInt 2)]]"
text \<open>
  Replies of the chat service. \<open>chat_reply content\<close> is a successful answer whose first
  completion has the given content. \<open>json_loads_example\<close> stands for \<^verbatim>\<open>json.loads\<close> on
  the strings used here: it parses \<open>partial_content\<close>, the text
  \<^verbatim>\<open>{"essentials": [{"item": "Milk", "price": 3}]}\<close>, and rejects prose;
  \<open>json_loads_list_example\<close> does the same for \<open>list_content\<close>, the text
  \<^verbatim>\<open>[{"item": "Milk", "price": 3}]\<close>.
  \<open>milk_chips\<close> is the classification of the scenario of the specification;
  \<open>free_samples\<close> is one whose prices add up to 0.
\<close>

definition dq :: "string \<Rightarrow> string" where
  "dq s = [CHR 0x22] @ s @ [CHR 0x22]"

definition partial_content :: string where
  "partial_content =
     ''{'' @ dq ''essentials'' @ '': [{'' @ dq ''item'' @ '': '' @ dq ''Milk'' @ '', '' @
     dq ''price'' @ '': 3}]}''"

definition partial_result :: pyval where
  "partial_result = PDict [(''essentials'', PList [PDict [(''item'', PStr ''Milk''), (''price'', PInt 3)]])]"

definition json_loads_example :: "string \<Rightarrow> string + pyval" where
  "json_loads_example s =
     (if s = partial_content then Inr partial_result
      else Inl ''Expecting value: line 1 column 1 (char 0)'')"




definition chat_reply :: "string \<Rightarrow> response" where
  "chat_reply content =
     ok_response
       (PDict [(''choices'',
                PList [PDict [(''index'', PInt 0),
                              (''message'', PDict [(''role'', PStr ''assistant''),
                                                   (''content'', PStr content)])]])])"

definition partial_completions :: "string \<Rightarrow> string + response" where
  "partial_completions grocery_text = Inr (chat_reply partial_content)"



definition milk_chips :: pyval where
  "milk_chips =
     PDict [(''essentials'',
             PList [PDict [(''item'', PStr ''Milk''), (''quantity'', PInt 1), (''price'', PInt 3)]]),
            (''non_essentials'',
             PList [PDict [(''item'', PStr ''Chips''), (''quantity'', PInt 1), (''price'', PInt 4)]]),
            (''suggestions'', PList [PStr ''Buy fewer snacks''])]"

definition free_samples :: pyval where
  "free_samples =
     PDict [(''essentials'',
             PList [PDict [(''item'', PStr ''Water''), (''quantity'', PInt 1), (''price'', PInt 0)]]),
            (''non_essentials'', PList [])]"

section \<open>Properties of floating-point rounding\<close>

text \<open>
  Powers of two, and \<open>ilog2\<close>: for \<open>a > 0\<close> it is the one integer \<open>e\<close> with
  \<open>2 ^ e \<le> a < 2 ^ (e + 1)\<close>.
\<close>

lemma pow2_powi: "pow2 k = 2 powi k"
  by (simp add: pow2_def power_int_def field_simps)

lemma pow2_pos: "0 < pow2 k"
  by (simp add: pow2_powi zero_less_power_int)

lemma pow2_add: "pow2 (j + k) = pow2 j * pow2 k"
  by (simp add: pow2_powi power_int_add)

lemma pow2_mono: "j \<le> k \<Longrightarrow> pow2 j \<le> pow2 k"
  by (simp add: pow2_powi power_int_increasing)

lemma pow2_strict_mono: "j < k \<Longrightarrow> pow2 j < pow2 k"
  by (simp add: pow2_powi power_int_strict_increasing)

lemma pow2_diff: "pow2 (j - k) = pow2 j / pow2 k"
proof -
  have "pow2 (j - k) * pow2 k = pow2 j" using pow2_add [of "j - k" k] by simp
  moreover have "pow2 k \<noteq> 0" using pow2_pos [of k] by simp
  ultimately show ?thesis by (simp add: field_simps)
qed

lemma bitlen_pow2_bounds:
  assumes "0 < n"
  shows "pow2 (bitlen n - 1) \<le> of_int n" and "of_int n < pow2 (bitlen n)"
proof -
  have b: "1 \<le> bitlen n" using assms bitlen_eq_zero_iff [of n] bitlen_nonneg [of n] by linarith
  from bitlen_bounds [OF assms]
  have lo: "2 ^ nat (bitlen n - 1) \<le> n" and hi: "n < 2 ^ nat (bitlen n)" by simp_all
  from lo have "(of_int (2 ^ nat (bitlen n - 1)) :: rat) \<le> of_int n" by (simp only: of_int_le_iff)
  then show "pow2 (bitlen n - 1) \<le> of_int n" using b by (simp add: pow2_def)
  from hi have "(of_int n :: rat) < of_int (2 ^ nat (bitlen n))" by (simp only: of_int_less_iff)
  then show "of_int n < pow2 (bitlen n)" using b by (simp add: pow2_def)
qed

lemma ilog2_bounds:
  assumes "0 < a"
  shows "pow2 (ilog2 a) \<le> a" and "a < pow2 (ilog2 a + 1)"
proof -
  define n where "n = fst (quotient_of a)"
  define d where "d = snd (quotient_of a)"
  have d0: "0 < d" by (simp add: d_def quotient_of_denom_pos')
  have a: "a = of_int n / of_int d"
    by (rule quotient_of_div) (simp add: n_def d_def)
  have n0: "0 < n"
  proof (rule ccontr)
    assume "\<not> 0 < n"
    then have "(of_int n :: rat) \<le> 0" by simp
    with d0 have "(of_int n :: rat) / of_int d \<le> 0" by (simp add: divide_nonpos_pos)
    with a assms show False by simp
  qed
  define k where "k = bitlen n - bitlen d"
  have dq: "(0::rat) < of_int d" using d0 by simp
  have lower: "pow2 (k - 1) < a"
  proof -
    have "pow2 (k - 1) = pow2 (bitlen n - 1) / pow2 (bitlen d)"
      using pow2_diff [of "bitlen n - 1" "bitlen d"] by (simp add: k_def algebra_simps)
    also have "\<dots> \<le> of_int n / pow2 (bitlen d)"
      using bitlen_pow2_bounds(1) [OF n0] pow2_pos [of "bitlen d"]
      by (simp add: divide_right_mono)
    also have "\<dots> < of_int n / of_int d"
      using bitlen_pow2_bounds(2) [OF d0] dq n0
      by (intro divide_strict_left_mono) simp_all
    finally show ?thesis by (simp add: a)
  qed
  have upper: "a < pow2 (k + 1)"
  proof -
    have "a = of_int n / of_int d" by (rule a)
    also have "\<dots> < pow2 (bitlen n) / of_int d"
      using bitlen_pow2_bounds(2) [OF n0] dq by (simp add: divide_strict_right_mono)
    also have "\<dots> \<le> pow2 (bitlen n) / pow2 (bitlen d - 1)"
      using bitlen_pow2_bounds(1) [OF d0] pow2_pos [of "bitlen d - 1"] pow2_pos [of "bitlen n"]
      by (intro divide_left_mono) simp_all
    also have "\<dots> = pow2 (k + 1)"
      using pow2_diff [of "bitlen n" "bitlen d - 1"] by (simp add: k_def algebra_simps)
    finally show ?thesis .
  qed
  have il: "ilog2 a = (if pow2 k \<le> a then k else k - 1)"
    by (simp add: ilog2_def Let_def k_def n_def d_def)
  show "pow2 (ilog2 a) \<le> a" using lower by (simp add: il)
  show "a < pow2 (ilog2 a + 1)" using upper by (simp add: il)
qed

lemma ilog2_unique:
  assumes "pow2 e \<le> a" and "a < pow2 (e + 1)"
  shows "ilog2 a = e"
proof -
  have a0: "0 < a" using pow2_pos [of e] assms(1) by linarith
  note b = ilog2_bounds [OF a0]
  have "\<not> ilog2 a < e"
  proof
    assume "ilog2 a < e"
    then have "pow2 (ilog2 a + 1) \<le> pow2 e" by (intro pow2_mono) simp
    with b(2) assms(1) show False by linarith
  qed
  moreover have "\<not> e < ilog2 a"
  proof
    assume "e < ilog2 a"
    then have "pow2 (e + 1) \<le> pow2 (ilog2 a)" by (intro pow2_mono) simp
    with b(1) assms(2) show False by linarith
  qed
  ultimately show ?thesis by linarith
qed



lemma round_half_even_near:
  assumes "\<bar>x - of_int m\<bar> < 1 / 2"
  shows "round_half_even x = m"
proof (cases "of_int m \<le> x")
  case True
  with assms have "\<lfloor>x\<rfloor> = m" by (intro floor_unique) linarith+
  with assms True show ?thesis by (simp add: round_half_even_def Let_def)
next
  case False
  with assms have f: "\<lfloor>x\<rfloor> = m - 1" by (intro floor_unique) (simp, linarith+)
  from assms False have "1 / 2 < x - of_int (m - 1)" by simp
  then have "\<not> x - of_int (m - 1) < 1 / 2" "1 / 2 < x - of_int (m - 1)" by simp_all
  with f show ?thesis by (simp add: round_half_even_def Let_def)
qed

lemma round_half_even_tie:
  assumes "x = of_int m + 1 / 2" and "even m"
  shows "round_half_even x = m"
proof -
  from assms(1) have "\<lfloor>x\<rfloor> = m" by (intro floor_unique) simp_all
  with assms show ?thesis by (simp add: round_half_even_def Let_def)
qed

lemma round_half_even_ge:
  assumes "of_int n \<le> x"
  shows "n \<le> round_half_even x"
proof -
  from assms have "n \<le> \<lfloor>x\<rfloor>" by (simp add: le_floor_iff)
  then show ?thesis by (simp add: round_half_even_def Let_def)
qed

lemma rnd_pos:
  assumes "pow2 e \<le> q" and "q < pow2 (e + 1)"
  shows "rnd q =
     (let u = pow2 (max e (- 1022) - 52);
          m = round_half_even (q / u);
          v = of_int m * u
      in if pow2 1024 \<le> v then PosInf else if m = 0 then Fin 0 else Fin v)"
proof -
  have q0: "0 < q" using pow2_pos [of e] assms(1) by linarith
  have "ilog2 q = e" using assms by (rule ilog2_unique)
  with q0 show ?thesis by (simp add: rnd_def Let_def)
qed

lemma rnd_rounded:
  assumes "pow2 e \<le> q" and "q < pow2 (e + 1)" and "- 1022 \<le> e"
      and "round_half_even (q / pow2 (e - 52)) = m"
      and "of_int m * pow2 (e - 52) < pow2 1024"
  shows "rnd q = Fin (of_int m * pow2 (e - 52))"
proof -
  have "pow2 52 = pow2 e / pow2 (e - 52)" using pow2_diff [of e "e - 52"] by simp
  also have "\<dots> \<le> q / pow2 (e - 52)"
    using assms(1) pow2_pos [of "e - 52"] by (simp add: divide_right_mono)
  finally have "of_int (2 ^ 52) \<le> q / pow2 (e - 52)" by (simp add: pow2_def)
  then have "2 ^ 52 \<le> m" using round_half_even_ge assms(4) by blast
  then have "m \<noteq> 0" by simp
  with assms show ?thesis by (simp add: rnd_pos [of e] Let_def max_def)
qed

lemma rnd_near:
  assumes "pow2 e \<le> q" and "q < pow2 (e + 1)" and "- 1022 \<le> e"
      and "\<bar>q / pow2 (e - 52) - of_int m\<bar> < 1 / 2"
      and "of_int m * pow2 (e - 52) < pow2 1024"
  shows "rnd q = Fin (of_int m * pow2 (e - 52))"
  using assms(1-3) round_half_even_near [OF assms(4)] assms(5) by (rule rnd_rounded)

lemma rnd_tie:
  assumes "pow2 e \<le> q" and "q < pow2 (e + 1)" and "- 1022 \<le> e"
      and "q / pow2 (e - 52) = of_int m + 1 / 2" and "even m"
      and "of_int m * pow2 (e - 52) < pow2 1024"
  shows "rnd q = Fin (of_int m * pow2 (e - 52))"
  using assms(1-3) round_half_even_tie [OF assms(4,5)] assms(6) by (rule rnd_rounded)

lemma rnd_overflow:
  assumes "pow2 1024 \<le> q"
  shows "rnd q = PosInf"
proof -
  have q0: "0 < q" using pow2_pos [of 1024] assms by linarith
  define e where "e = ilog2 q"
  note b = ilog2_bounds [OF q0, folded e_def]
  have e: "1024 \<le> e"
  proof (rule ccontr)
    assume "\<not> 1024 \<le> e"
    then have "pow2 (e + 1) \<le> pow2 1024" by (intro pow2_mono) simp
    with b(2) assms show False by linarith
  qed
  define m where "m = round_half_even (q / pow2 (e - 52))"
  have "pow2 52 = pow2 e / pow2 (e - 52)" using pow2_diff [of e "e - 52"] by simp
  also have "\<dots> \<le> q / pow2 (e - 52)"
    using b(1) pow2_pos [of "e - 52"] by (simp add: divide_right_mono)
  finally have "of_int (2 ^ 52) \<le> q / pow2 (e - 52)" by (simp add: pow2_def)
  then have "2 ^ 52 \<le> m" unfolding m_def by (rule round_half_even_ge)
  then have "(of_int (2 ^ 52) :: rat) \<le> of_int m" by (simp only: of_int_le_iff)
  then have "pow2 52 \<le> of_int m" by (simp add: pow2_def)
  then have "pow2 52 * pow2 (e - 52) \<le> of_int m * pow2 (e - 52)"
    using pow2_pos [of "e - 52"] by (simp add: mult_right_mono)
  moreover have "pow2 52 * pow2 (e - 52) = pow2 e" using pow2_add [of 52 "e - 52"] by simp
  moreover have "pow2 1024 \<le> pow2 e" using e by (rule pow2_mono)
  ultimately have "pow2 1024 \<le> of_int m * pow2 (e - 52)" by linarith
  with q0 e show ?thesis
    by (simp add: rnd_pos [OF b] Let_def max_def m_def)
qed

text \<open>Rounding is exact on the integers up to \<open>2 ^ 53\<close> in absolute value.\<close>

lemma round_half_even_int: "round_half_even (of_int j) = j"
  by (simp add: round_half_even_def)

lemma ilog2_int:
  assumes "0 < k"
  shows "ilog2 (of_int k) = bitlen k - 1"
proof -
  from bitlen_bounds [OF assms] have "2 ^ nat (bitlen k - 1) \<le> k" by simp
  then have "(of_int (2 ^ nat (bitlen k - 1)) :: rat) \<le> of_int k"
    by (simp only: of_int_le_iff)
  moreover have "0 \<le> bitlen k - 1" using assms bitlen_eq_zero_iff [of k] bitlen_nonneg [of k]
    by linarith
  ultimately have "pow2 (bitlen k - 1) \<le> of_int k"
    by (simp add: pow2_def)
  moreover have "bitlen 1 = 1" by code_simp
  ultimately show ?thesis
    by (simp add: ilog2_def)
qed

lemma rnd_pos_int:
  assumes "0 < k" and "k \<le> 2 ^ 53"
  shows "rnd (of_int k) = Fin (of_int k)"
proof -
  define e where "e = bitlen k - 1"
  have e0: "0 \<le> e" unfolding e_def
    using assms(1) bitlen_eq_zero_iff [of k] bitlen_nonneg [of k] by linarith
  from bitlen_bounds [OF assms(1)] have lo: "2 ^ nat e \<le> k" and hi: "k < 2 ^ nat (e + 1)"
    by (simp_all add: e_def)
  have e53: "e \<le> 53"
  proof (rule ccontr)
    assume "\<not> e \<le> 53"
    then have "54 \<le> nat e" by simp
    then have "(2::int) ^ 54 \<le> 2 ^ nat e" by (intro power_increasing) simp_all
    with lo assms(2) show False by simp
  qed
  have il: "ilog2 (of_int k) = e" by (simp add: ilog2_int assms(1) e_def)
  have kq: "(0::rat) < of_int k" using assms(1) by simp
  have small: "\<not> pow2 1024 \<le> (of_int k :: rat)"
  proof -
    have "(of_int k :: rat) \<le> of_int (2 ^ 53)" using assms(2) by (simp only: of_int_le_iff)
    also have "\<dots> < pow2 1024" by (simp add: pow2_def)
    finally show ?thesis by simp
  qed
  show ?thesis
  proof (cases "e \<le> 52")
    case True
    define j where "j = k * 2 ^ nat (52 - e)"
    have u: "pow2 (e - 52) = 1 / 2 ^ nat (52 - e)"
      using True by (cases "e = 52") (simp_all add: pow2_def)
    have dv: "(of_int k :: rat) / pow2 (e - 52) = of_int j"
      by (simp add: u j_def)
    have mul: "(of_int j :: rat) * pow2 (e - 52) = of_int k"
      by (simp add: u j_def)
    have j0: "j \<noteq> 0" using assms(1) by (simp add: j_def)
    show ?thesis
      using kq e0 small j0
      by (simp add: rnd_def il Let_def dv round_half_even_int mul max_def)
  next
    case False
    with e53 have e: "e = 53" by simp
    with lo assms(2) have k: "k = 2 ^ 53" by simp
    have "rnd (of_int (2 ^ 53)) = Fin (of_int (2 ^ 53))"
      using rnd_near [of 53 "2 ^ 53" "2 ^ 52"] by (simp add: pow2_def)
    then show ?thesis by (simp only: k)
  qed
qed

lemma rnd_minus:
  "0 < q \<Longrightarrow> rnd q = Fin v \<Longrightarrow> v \<noteq> 0 \<Longrightarrow> rnd (- q) = Fin (- v)"
  by (auto simp: rnd_def Let_def split: if_splits)

lemma rnd_int:
  assumes "\<bar>k\<bar> \<le> 2 ^ 53"
  shows "rnd (of_int k) = Fin (of_int k)"
proof -
  consider "k = 0" | "0 < k" | "k < 0" by linarith
  then show ?thesis
  proof cases
    case 1
    then show ?thesis by (simp add: rnd_def)
  next
    case 2
    with assms show ?thesis by (simp add: rnd_pos_int)
  next
    case 3
    with assms have "rnd (of_int (- k)) = Fin (of_int (- k))" by (intro rnd_pos_int) simp_all
    moreover have "(0::rat) < of_int (- k)" "(of_int (- k) :: rat) \<noteq> 0" using 3 by simp_all
    ultimately have "rnd (- of_int (- k)) = Fin (- of_int (- k))" by (intro rnd_minus)
    then show ?thesis by simp
  qed
qed

lemma fadd_int:
  assumes "\<bar>t + n\<bar> \<le> 2 ^ 53"
  shows "fadd (Fin (of_int t)) (Fin (of_int n)) = Fin (of_int (t + n))"
proof -
  have "rnd (of_int t + of_int n) = Fin (of_int t + of_int n)"
    using rnd_int [OF assms] by simp
  then show ?thesis by (simp add: fadd_def is_inf_def)
qed

section \<open>Properties of floating-point addition\<close>

lemma fadd_zero_left: "fadd (Fin 0) (Fin b) = Fin b"
  by (simp add: fadd_def is_inf_def)

lemma fadd_zero_right: "x \<noteq> NegZero \<Longrightarrow> fadd x (Fin 0) = x"
  by (cases x) (simp_all add: fadd_def is_inf_def)

lemma same_number_refl: "same_number x x"
  by (simp add: same_number_def)

lemma same_number_fadd_zero: "same_number (fadd x (Fin 0)) x"
  by (cases x) (simp_all add: fadd_def is_inf_def same_number_def is_zero_def)

lemma fadd_zeros:
  assumes "is_zero t" and "is_zero t'"
  shows "same_number (fadd t p) (fadd t' p)"
proof (cases p)
  case (Fin b)
  with assms show ?thesis
    by (auto simp: is_zero_def fadd_def is_inf_def same_number_def)
next
  case NegZero
  with assms show ?thesis
    by (auto simp: is_zero_def fadd_def is_inf_def same_number_def)
next
  case PosInf
  with assms show ?thesis
    by (auto simp: is_zero_def fadd_def is_inf_def same_number_def)
next
  case NegInf
  with assms show ?thesis
    by (auto simp: is_zero_def fadd_def is_inf_def same_number_def)
next
  case NaN
  then show ?thesis by (simp add: fadd_def same_number_def)
qed

lemma same_number_fadd:
  assumes "same_number t t'"
  shows "same_number (fadd t p) (fadd t' p)"
proof (cases "t = t'")
  case True
  then show ?thesis by (simp add: same_number_def)
next
  case False
  with assms have "is_zero t" and "is_zero t'" by (simp_all add: same_number_def)
  then show ?thesis by (rule fadd_zeros)
qed

section \<open>Properties of the aggregator\<close>

lemma safe_sum_loop_append:
  "safe_sum_loop parse (xs @ ys) tot = safe_sum_loop parse ys (safe_sum_loop parse xs tot)"
  by (induction xs arbitrary: tot) simp_all

lemma safe_sum_loop_same:
  "same_number t t' \<Longrightarrow> same_number (safe_sum_loop parse its t) (safe_sum_loop parse its t')"
proof (induction its arbitrary: t t')
  case Nil
  then show ?case by simp
next
  case (Cons it its)
  show ?case
  proof (cases "price_float parse it")
    case (Inl e)
    with Cons show ?thesis by simp
  next
    case (Inr x)
    from Cons.prems have "same_number (fadd t x) (fadd t' x)" by (rule same_number_fadd)
    then have "same_number (safe_sum_loop parse its (fadd t x)) (safe_sum_loop parse its (fadd t' x))"
      by (rule Cons.IH)
    with Inr show ?thesis by simp
  qed
qed

lemma rnd_zero: "rnd 0 = Fin 0"
  by (simp add: rnd_def)

lemma int_to_double_zero: "int_to_double 0 = Inr (Fin 0)"
  by (simp add: int_to_double_def rnd_zero is_inf_def)

lemma numeric_price_float:
  "numeric_price parse it p \<Longrightarrow> price_float parse it = Inr p"
  by (cases it)
     (auto simp: price_float_def py_or_def int_to_double_zero is_zero_def
           split: option.splits pyval.splits)

lemma int_price_float:
  assumes "int_price it n" and "\<bar>n\<bar> \<le> 2 ^ 53"
  shows "price_float parse it = Inr (Fin (of_int n))"
proof -
  have "int_to_double n = Inr (Fin (of_int n))"
    using rnd_int [OF assms(2)] by (simp add: int_to_double_def is_inf_def)
  with assms(1) show ?thesis
    by (cases it) (auto simp: price_float_def py_or_def int_to_double_zero)
qed

lemma unparsable_float:
  "unparsable parse v \<Longrightarrow> py_float parse (py_or v (PInt 0)) = Inr (Fin 0) \<or>
     (\<exists>e. py_float parse (py_or v (PInt 0)) = Inl e)"
  by (cases v)
     (auto simp: py_or_def int_to_double_def rnd_zero split: option.splits)

lemma price_missing_float:
  assumes "price_missing parse it"
  shows "price_float parse it = Inr (Fin 0) \<or> (\<exists>e. price_float parse it = Inl e)"
proof (cases it)
  case (PDict kvs)
  show ?thesis
  proof (cases "map_of kvs ''price''")
    case None
    with PDict show ?thesis by (simp add: price_float_def py_or_def int_to_double_zero)
  next
    case (Some v)
    with PDict assms have "unparsable parse v" by simp
    from unparsable_float [OF this] PDict Some show ?thesis
      by (simp add: price_float_def)
  qed
qed (simp_all add: price_float_def)

lemma price_missing_step:
  assumes "price_missing parse it"
  shows "same_number (case price_float parse it of Inr x \<Rightarrow> fadd tot x | Inl _ \<Rightarrow> tot) tot"
  using price_missing_float [OF assms]
  by (auto simp: same_number_fadd_zero same_number_refl)

lemma safe_sum_loop_numeric:
  "list_all2 (numeric_price parse) its ps \<Longrightarrow> safe_sum_loop parse its tot = foldl fadd tot ps"
proof (induction its ps arbitrary: tot rule: list_all2_induct)
  case Nil
  show ?case by simp
next
  case (Cons it its p ps)
  from Cons.hyps(1) have "price_float parse it = Inr p" by (rule numeric_price_float)
  then show ?case using Cons.IH [of "fadd tot p"] by simp
qed

lemma safe_sum_loop_int:
  "list_all2 int_price its ns \<Longrightarrow> \<bar>t\<bar> + sum_list (map abs ns) \<le> 2 ^ 53 \<Longrightarrow>
   safe_sum_loop parse its (Fin (of_int t)) = Fin (of_int (t + sum_list ns))"
proof (induction its ns arbitrary: t rule: list_all2_induct)
  case Nil
  show ?case by simp
next
  case (Cons it its n ns)
  have nonneg: "0 \<le> sum_list (map abs ns)" by (rule sum_list_nonneg) auto
  from Cons.prems nonneg have n: "\<bar>n\<bar> \<le> 2 ^ 53" and tn: "\<bar>t + n\<bar> \<le> 2 ^ 53"
    by simp_all
  from Cons.prems have rest: "\<bar>t + n\<bar> + sum_list (map abs ns) \<le> 2 ^ 53" by simp
  from Cons.hyps(1) n have "price_float parse it = Inr (Fin (of_int n))" by (rule int_price_float)
  then show ?case using Cons.IH [OF rest] fadd_int [OF tn] by (simp add: add.assoc)
qed

lemma safe_sum_list:
  "safe_sum parse (PList its) = Inr (safe_sum_loop parse its (Fin 0))"
  by (cases its) (simp_all add: safe_sum_def py_or_def)

lemma safe_sum_int:
  assumes "list_all2 int_price its ns" and "sum_list (map abs ns) \<le> 2 ^ 53"
  shows "safe_sum parse (PList its) = Inr (Fin (of_int (sum_list ns)))"
  using safe_sum_loop_int [OF assms(1), of 0 parse] assms(2) by (simp add: safe_sum_list)

text \<open>
  The arithmetic of the examples below. \<open>2 ^ 53 + 1\<close> lies halfway between the doubles
  \<open>2 ^ 53\<close> and \<open>2 ^ 53 + 2\<close> and is rounded to the first, whose significand is even;
  \<open>10 ^ 400\<close> is beyond the largest double.
\<close>

lemma int_to_double_exact:
  "\<bar>k\<bar> \<le> 2 ^ 53 \<Longrightarrow> int_to_double k = Inr (Fin (of_int k))"
  by (simp add: int_to_double_def rnd_int is_inf_def)

lemma example_sums:
  "fadd (Fin 9007199254740992) (Fin 1) = Fin 9007199254740992"
  "fadd (Fin 3) (Fin (9 / 2)) = Fin (15 / 2)"
  "fadd (Fin (15 / 2)) (Fin (5 / 2)) = Fin 10"
  using rnd_tie [of 53 9007199254740993 4503599627370496]
        rnd_near [of 2 "15 / 2" 8444249301319680]
        rnd_near [of 3 10 5629499534213120]
  by (simp_all add: fadd_def is_inf_def pow2_def)

lemma example_conversions:
  "int_to_double 9007199254740992 = Inr (Fin 9007199254740992)"
  "int_to_double 1 = Inr (Fin 1)"
  "int_to_double 2 = Inr (Fin 2)"
  "int_to_double 3 = Inr (Fin 3)"
  "int_to_double 4 = Inr (Fin 4)"
  using int_to_double_exact [of 9007199254740992] int_to_double_exact [of 1]
        int_to_double_exact [of 2] int_to_double_exact [of 3] int_to_double_exact [of 4]
  by simp_all

lemma huge: "pow2 1024 \<le> 10 ^ 400"
proof -
  have "(2::rat) ^ 1024 \<le> 2 ^ 1200" by (intro power_increasing) simp_all
  also have "\<dots> = (2 ^ 3) ^ 400" by (simp only: power_mult [symmetric]) simp
  also have "\<dots> \<le> 10 ^ 400" by (intro power_mono) simp_all
  finally show ?thesis by (simp add: pow2_def)
qed

lemma int_to_double_huge:
  "int_to_double (10 ^ 400) = Inl (OverflowError ''int too large to convert to float'')"
  using rnd_overflow [OF huge] by (simp add: int_to_double_def is_inf_def)

lemma price_float_item:
  "price_float parse (PDict [(''item'', v), (''price'', PInt n)]) = int_to_double n"
  by (simp add: price_float_def py_or_def int_to_double_zero)

text \<open>
  Claim C3, as stated, fails: the sum is a sum of floats, made from left to right, and
  each addition rounds. The prices \<open>2 ^ 53\<close>, 1 and 1 are integers that \<^verbatim>\<open>float\<close>
  converts exactly, and their arithmetic total \<open>2 ^ 53 + 2\<close> is a double too, but the sum
  is \<open>2 ^ 53\<close>: each of the two additions of 1 is rounded away. And an integer too large
  for a double (here \<open>10 ^ 400\<close>) is a well-formed number, but \<^verbatim>\<open>float\<close> raises
  \<^verbatim>\<open>OverflowError\<close> on it, which the loop swallows: the item is skipped and the sum of
  \<open>10 ^ 400\<close> and 2 is 2.
\<close>

theorem arithmetic_total_counterexample:
  "list_all2 int_price large_prices [9007199254740992, 1, 1] \<and>
   sum_list [9007199254740992, 1, 1] = (9007199254740994 :: int) \<and>
   safe_sum float_example (PList large_prices) = Inr (Fin 9007199254740992) \<and>
   list_all2 int_price huge_prices [10 ^ 400, 2] \<and>
   safe_sum float_example (PList huge_prices) = Inr (Fin 2)"
  by (simp add: large_prices_def huge_prices_def safe_sum_list price_float_item
        example_conversions int_to_double_huge [simplified] example_sums fadd_zero_left)

text \<open>
  Claim C3, amended. On every list of items the sum returns a float and raises nothing.
  When every item carries a well-formed numeric price, the sum is the floating-point sum
  of the prices, added from left to right to \<open>0.0\<close>, each addition rounded to the nearest
  double. It is the arithmetic total when the additions are exact, as they are for
  integer prices whose absolute values add up to \<open>2 ^ 53\<close> at most. An item whose price
  is missing or unparsable contributes 0: the sum of a list that holds it is the same
  number as the sum of the list without it.
\<close>

theorem safe_sum_float_total:
  "(\<exists>t. safe_sum parse (PList items) = Inr t) \<and>
   (list_all2 (numeric_price parse) items ps \<longrightarrow>
      safe_sum parse (PList items) = Inr (foldl fadd (Fin 0) ps)) \<and>
   (list_all2 int_price items ns \<and> sum_list (map abs ns) \<le> 2 ^ 53 \<longrightarrow>
      safe_sum parse (PList items) = Inr (Fin (of_int (sum_list ns)))) \<and>
   (price_missing parse it \<longrightarrow>
      (\<exists>t t'. safe_sum parse (PList (xs @ it # ys)) = Inr t \<and>
               safe_sum parse (PList (xs @ ys)) = Inr t' \<and> same_number t t'))"
proof (intro conjI impI)
  show "\<exists>t. safe_sum parse (PList items) = Inr t"
    by (simp add: safe_sum_list)
next
  assume "list_all2 (numeric_price parse) items ps"
  then show "safe_sum parse (PList items) = Inr (foldl fadd (Fin 0) ps)"
    by (simp add: safe_sum_list safe_sum_loop_numeric)
next
  assume "list_all2 int_price items ns \<and> sum_list (map abs ns) \<le> 2 ^ 53"
  then show "safe_sum parse (PList items) = Inr (Fin (of_int (sum_list ns)))"
    by (simp add: safe_sum_int)
next
  assume "price_missing parse it"
  then have "same_number
      (case price_float parse it of
         Inr x \<Rightarrow> fadd (safe_sum_loop parse xs (Fin 0)) x
       | Inl _ \<Rightarrow> safe_sum_loop parse xs (Fin 0))
      (safe_sum_loop parse xs (Fin 0))"
    by (rule price_missing_step)
  then have "same_number (safe_sum_loop parse (xs @ it # ys) (Fin 0))
                         (safe_sum_loop parse (xs @ ys) (Fin 0))"
    by (simp add: safe_sum_loop_append safe_sum_loop_same)
  then show "\<exists>t t'. safe_sum parse (PList (xs @ it # ys)) = Inr t \<and>
               safe_sum parse (PList (xs @ ys)) = Inr t' \<and> same_number t t'"
    by (simp add: safe_sum_list)
qed

text \<open>
  The amended claim at three lists: prices 3, 4.5 and \<^verbatim>\<open>"2.50"\<close> sum to 10.0; the
  integer prices 3 and 4 sum to 7; and an item priced \<^verbatim>\<open>"n/a"\<close> between the first two
  leaves their sum 7.5.
\<close>

theorem safe_sum_float_total_witness:
  "safe_sum float_example
     (PList [PDict [(''item'', PStr ''Milk''), (''price'', PInt 3)],
             PDict [(''item'', PStr ''Chips''), (''price'', PFloat (Fin (9 / 2)))],
             PDict [(''item'', PStr ''Rice''), (''price'', PStr ''2.50'')]]) = Inr (Fin 10) \<and>
   safe_sum float_example
     (PList [PDict [(''item'', PStr ''Milk''), (''price'', PInt 3)],
             PDict [(''item'', PStr ''Chips''), (''price'', PInt 4)]]) = Inr (Fin 7) \<and>
   (\<exists>t t'. safe_sum float_example
              (PList [PDict [(''item'', PStr ''Milk''), (''price'', PInt 3)],
                      PDict [(''item'', PStr ''Gum''), (''price'', PStr ''n/a'')],
                      PDict [(''item'', PStr ''Chips''), (''price'', PFloat (Fin (9 / 2)))]]) =
            Inr t \<and>
            safe_sum float_example
              (PList [PDict [(''item'', PStr ''Milk''), (''price'', PInt 3)],
                      PDict [(''item'', PStr ''Chips''), (''price'', PFloat (Fin (9 / 2)))]]) =
            Inr t' \<and> same_number t t')"
proof -
  have "safe_sum float_example
     (PList [PDict [(''item'', PStr ''Milk''), (''price'', PInt 3)],
             PDict [(''item'', PStr ''Chips''), (''price'', PFloat (Fin (9 / 2)))],
             PDict [(''item'', PStr ''Rice''), (''price'', PStr ''2.50'')]]) = Inr (Fin 10)"
    using safe_sum_float_total
      [of float_example
          "[PDict [(''item'', PStr ''Milk''), (''price'', PInt 3)],
            PDict [(''item'', PStr ''Chips''), (''price'', PFloat (Fin (9 / 2)))],
            PDict [(''item'', PStr ''Rice''), (''price'', PStr ''2.50'')]]"
          "[Fin 3, Fin (9 / 2), Fin (5 / 2)]"]
    by (simp add: float_example_def example_conversions example_sums fadd_zero_left
          is_zero_def)
  moreover have "safe_sum float_example
     (PList [PDict [(''item'', PStr ''Milk''), (''price'', PInt 3)],
             PDict [(''item'', PStr ''Chips''), (''price'', PInt 4)]]) = Inr (Fin 7)"
    using safe_sum_float_total
      [of float_example
          "[PDict [(''item'', PStr ''Milk''), (''price'', PInt 3)],
            PDict [(''item'', PStr ''Chips''), (''price'', PInt 4)]]"
          _ "[3, 4]"]
    by simp
  moreover have "\<exists>t t'. safe_sum float_example
              (PList [PDict [(''item'', PStr ''Milk''), (''price'', PInt 3)],
                      PDict [(''item'', PStr ''Gum''), (''price'', PStr ''n/a'')],
                      PDict [(''item'', PStr ''Chips''), (''price'', PFloat (Fin (9 / 2)))]]) =
            Inr t \<and>
            safe_sum float_example
              (PList [PDict [(''item'', PStr ''Milk''), (''price'', PInt 3)],
                      PDict [(''item'', PStr ''Chips''), (''price'', PFloat (Fin (9 / 2)))]]) =
            Inr t' \<and> same_number t t'"
    using safe_sum_float_total
      [of float_example _ _ _
          "PDict [(''item'', PStr ''Gum''), (''price'', PStr ''n/a'')]"
          "[PDict [(''item'', PStr ''Milk''), (''price'', PInt 3)]]"
          "[PDict [(''item'', PStr ''Chips''), (''price'', PFloat (Fin (9 / 2)))]]"]
    by (simp add: float_example_def)
  ultimately show ?thesis by (intro conjI)
qed
section \<open>Properties of the receipt transcription client\<close>

subsection \<open>The poll loop\<close>

lemma lower_Nil: "lower [] = []" by (simp add: lower_def)

lemma pending_body: 
  assumes "pending answer" shows "poll_body answer = Inr None"
proof -
  from assms obtain poll where a: "answer = Inr poll" "raise_for_status poll = None"
    by (cases answer) (auto simp: pending_def)
  from assms a obtain kvs where j: "json poll = Inr (PDict kvs)"
    by (cases "json poll") (auto simp: pending_def split: pyval.splits)
  show ?thesis
  proof (cases "map_of kvs ''status''")
    case None
    with a j show ?thesis by (simp add: poll_body_def lower_Nil)
  next
    case (Some v)
    with assms a j obtain s where "v = PStr s" "lower s \<noteq> ''succeeded''" "lower s \<noteq> ''failed''"
      by (cases v) (auto simp: pending_def)
    with a j Some show ?thesis by (simp add: poll_body_def)
  qed
qed

lemma poll_loop_pending:
  "(\<forall>i<m. pending (operation srv loc (k + i))) \<Longrightarrow>
   poll_loop srv loc k (m + n) trace =
   poll_loop srv loc (k + m) n (trace @ concat (replicate m [Get loc, Sleep 1]))"
proof (induction m arbitrary: k trace)
  case 0
  show ?case by simp
next
  case (Suc m)
  from Suc.prems have "pending (operation srv loc (k + 0))" by blast
  then have body: "poll_body (operation srv loc k) = Inr None" by (simp add: pending_body)
  have "\<forall>i<m. pending (operation srv loc (Suc k + i))"
  proof (intro allI impI)
    fix i assume "i < m"
    then have "Suc i < Suc m" by simp
    with Suc.prems have "pending (operation srv loc (k + Suc i))" by blast
    then show "pending (operation srv loc (Suc k + i))" by simp
  qed
  from Suc.IH [OF this, of "trace @ [Get loc, Sleep 1]"] body
  show ?case by simp
qed

lemma line_loop_texts:
  "list_all2 line_text ls ts \<Longrightarrow>
   line_loop ls lines = Inr (lines @ filter (\<lambda>t. t \<noteq> []) (map strip ts))"
proof (induction ls ts arbitrary: lines rule: list_all2_induct)
  case Nil
  show ?case by simp
next
  case (Cons l ls t ts)
  from Cons.hyps(1) obtain kvs where "l = PDict kvs" "map_of kvs ''text'' = Some (PStr t)"
    by (cases l) auto
  then show ?case using Cons.IH by simp
qed

lemma page_loop_texts:
  "list_all2 page_texts pages tss \<Longrightarrow>
   page_loop pages lines = Inr (lines @ kept_lines tss)"
proof (induction pages tss arbitrary: lines rule: list_all2_induct)
  case Nil
  show ?case by (simp add: kept_lines_def)
next
  case (Cons p ps ts tss)
  from Cons.hyps(1) obtain kvs ls where p: "p = PDict kvs" "map_of kvs ''lines'' = Some (PList ls)"
    "list_all2 line_text ls ts"
    by (cases p) (auto split: option.splits pyval.splits)
  from line_loop_texts [OF p(3)] p(1,2) show ?case using Cons.IH
    by (simp add: kept_lines_def)
qed

lemma polls_timeout_trace:
  "polls (Post b # concat (replicate m [Get loc, Sleep 1])) = m"
  by (induction m) (simp_all add: polls_def)

lemma polls_return_trace:
  "polls (Post b # concat (replicate m [Get loc, Sleep 1]) @ [Get loc]) = Suc m"
  by (induction m) (simp_all add: polls_def)

lemma poll_loop_return_at:
  assumes pend: "\<forall>i<j. pending (operation srv loc i)"
      and j: "j < 60"
      and body: "poll_body (operation srv loc j) = Inr (Some s)"
  shows "poll_loop srv loc 0 60 trace =
           (Inr (Some s), trace @ concat (replicate j [Get loc, Sleep 1]) @ [Get loc])"
proof -
  from j have split: "60 = j + Suc (59 - j)" by simp
  from pend have "\<forall>i<j. pending (operation srv loc (0 + i))" by simp
  from poll_loop_pending [OF this, of "Suc (59 - j)" trace]
  have "poll_loop srv loc 0 (j + Suc (59 - j)) trace =
        poll_loop srv loc j (Suc (59 - j)) (trace @ concat (replicate j [Get loc, Sleep 1]))"
    by simp
  with body have "poll_loop srv loc 0 (j + Suc (59 - j)) trace =
      (Inr (Some s), trace @ concat (replicate j [Get loc, Sleep 1]) @ [Get loc])"
    by simp
  with split show ?thesis by metis
qed

lemma status_isD:
  assumes "status_is w answer"
  obtains poll kvs s where "answer = Inr poll" "raise_for_status poll = None"
    "json poll = Inr (PDict kvs)" "map_of kvs ''status'' = Some (PStr s)" "lower s = w"
proof -
  from assms obtain poll where a: "answer = Inr poll" "raise_for_status poll = None"
    by (cases answer) (auto simp: status_is_def)
  from assms a obtain kvs where j: "json poll = Inr (PDict kvs)"
    by (cases "json poll") (auto simp: status_is_def split: pyval.splits)
  from assms a j obtain v where v: "map_of kvs ''status'' = Some v"
    by (cases "map_of kvs ''status''") (auto simp: status_is_def)
  from assms a j v obtain s where "v = PStr s" "lower s = w"
    by (cases v) (auto simp: status_is_def)
  with a j v that show thesis by blast
qed

lemma failed_body:
  assumes "status_is ''failed'' answer"
  shows "poll_body answer = Inr (Some failed_msg)"
proof -
  from assms obtain poll kvs s where "answer = Inr poll" "raise_for_status poll = None"
    "json poll = Inr (PDict kvs)" "map_of kvs ''status'' = Some (PStr s)" "lower s = ''failed''"
    by (rule status_isD)
  then show ?thesis by (simp add: poll_body_def)
qed

lemma succeeded_body:
  assumes st: "status_is ''succeeded'' answer" and rr: "read_results answer tss"
  shows "poll_body answer =
           Inr (Some (if kept_lines tss \<noteq> [] then join [CHR 0x0A] (kept_lines tss) else no_text_msg))"
proof -
  from st obtain poll kvs s where a: "answer = Inr poll" "raise_for_status poll = None"
    "json poll = Inr (PDict kvs)" "map_of kvs ''status'' = Some (PStr s)" "lower s = ''succeeded''"
    by (rule status_isD)
  from rr a obtain ar where ar: "map_of kvs ''analyzeResult'' = Some (PDict ar)"
    by (auto simp: read_results_def split: option.splits pyval.splits)
  from rr a ar obtain pages where pg: "map_of ar ''readResults'' = Some (PList pages)"
    "list_all2 page_texts pages tss"
    by (auto simp: read_results_def split: option.splits pyval.splits)
  from page_loop_texts [OF pg(2), of "[]"] ar pg(1)
  have "succeeded_text (PDict kvs) =
          Inr (if kept_lines tss \<noteq> [] then join [CHR 0x0A] (kept_lines tss) else no_text_msg)"
    by (simp add: succeeded_text_def)
  with a show ?thesis by (simp add: poll_body_def)
qed

subsection \<open>Facts about the example collaborators\<close>

lemma lower_Succeeded: "lower ''Succeeded'' = ''succeeded''"
  by code_simp

lemma lower_FAILED: "lower ''FAILED'' = ''failed''"
  by code_simp

lemma lower_running: "lower ''running'' = ''running''"
  by code_simp

lemma lower_succeeded: "lower ''succeeded'' = ''succeeded''"
  by code_simp

lemma strip_examples:
  "strip '' Milk 3 '' = ''Milk 3''" "strip ''   '' = []" "strip ''Chips 4'' = ''Chips 4''"
  "strip nbsp = []" "strip (nbsp @ ''Chips 4'' @ ideographic_space) = ''Chips 4''"
  unfolding nbsp_def ideographic_space_def by code_simp+

lemma accepted_job: "submit_job (third_poll_service final) bs = Inr job_url"
  "submit_job slow_service bs = Inr job_url"
  by (simp_all add: submit_job_def third_poll_service_def slow_service_def accepted_def
        op_location_def job_url_def)

lemma pending_running: "pending (Inr (ok_response running))"
  by (simp add: pending_def ok_response_def running_def lower_running)

subsection \<open>The claims\<close>

text \<open>
  Claim C1. Let the submission give a job handle. If each of the 60 polls is answered
  with a status that is not terminal (neither \<^verbatim>\<open>succeeded\<close> nor \<^verbatim>\<open>failed\<close>), the
  function returns the timeout message, and its effects are the submission followed by
  exactly 60 rounds of one poll and one sleep of 1 second: 60 polls, no 61st. (The
  code sleeps after every pending poll, so also once after the 60th.)
\<close>

theorem poll_timeout:
  assumes "submit_job srv file_bytes = Inr loc" and "truthy loc"
      and "\<forall>i<60. pending (operation srv loc i)"
  shows "extract_text_from_receipt srv file_bytes =
           (timeout_msg, Post file_bytes # concat (replicate 60 [Get loc, Sleep 1])) \<and>
         polls (snd (extract_text_from_receipt srv file_bytes)) = 60"
proof -
  from assms(3) have "\<forall>i<60. pending (operation srv loc (0 + i))" by simp
  from poll_loop_pending [OF this, of 0 "[Post file_bytes]"]
  have "poll_loop srv loc 0 60 [Post file_bytes] =
          (Inr None, Post file_bytes # concat (replicate 60 [Get loc, Sleep 1]))"
    by simp
  with assms(1,2) have r: "extract_text_from_receipt srv file_bytes =
           (timeout_msg, Post file_bytes # concat (replicate 60 [Get loc, Sleep 1]))"
    by (simp add: extract_text_from_receipt_def)
  from r polls_timeout_trace [of file_bytes 60 loc] show ?thesis by simp
qed

text \<open>The theorem at a service that answers every poll with \<^verbatim>\<open>running\<close>.\<close>

theorem poll_timeout_witness:
  "extract_text_from_receipt slow_service ''jpeg'' =
     (timeout_msg, Post ''jpeg'' # concat (replicate 60 [Get job_url, Sleep 1])) \<and>
   polls (snd (extract_text_from_receipt slow_service ''jpeg'')) = 60"
proof -
  have 1: "submit_job slow_service ''jpeg'' = Inr job_url" by (rule accepted_job)
  have 2: "truthy job_url" by (simp add: job_url_def)
  have 3: "\<forall>i<60. pending (operation slow_service job_url i)"
    by (simp add: slow_service_def pending_running)
  from poll_timeout [OF 1 2 3] show ?thesis .
qed

text \<open>
  Claim C2. Let the submission give a job handle, let \<open>1 \<le> k \<le> 60\<close>, let the polls
  before the \<open>k\<close>-th be pending and the \<open>k\<close>-th be answered with the status
  \<^verbatim>\<open>succeeded\<close> and the result pages \<open>tss\<close>. Then the function returns at that poll,
  having made exactly \<open>k\<close> polls (and no sleep after the last). It returns the lines of
  all pages in page order then line order, each trimmed, the empty ones dropped, joined
  by line feeds; if no line is left it returns the "no text found" message instead.
\<close>

theorem succeeded_returns_lines:
  assumes "submit_job srv file_bytes = Inr loc" and "truthy loc"
      and "1 \<le> k" and "k \<le> 60"
      and "\<forall>i<k - 1. pending (operation srv loc i)"
      and "status_is ''succeeded'' (operation srv loc (k - 1))"
      and "read_results (operation srv loc (k - 1)) tss"
  shows "extract_text_from_receipt srv file_bytes =
           (if kept_lines tss \<noteq> [] then join [CHR 0x0A] (kept_lines tss) else no_text_msg,
            Post file_bytes # concat (replicate (k - 1) [Get loc, Sleep 1]) @ [Get loc]) \<and>
         polls (snd (extract_text_from_receipt srv file_bytes)) = k"
proof -
  let ?s = "if kept_lines tss \<noteq> [] then join [CHR 0x0A] (kept_lines tss) else no_text_msg"
  from assms(3,4) have j: "k - 1 < 60" by simp
  from succeeded_body [OF assms(6,7)]
  have body: "poll_body (operation srv loc (k - 1)) = Inr (Some ?s)" .
  from poll_loop_return_at [OF assms(5) j body, of "[Post file_bytes]"] assms(1,2)
  have r: "extract_text_from_receipt srv file_bytes =
            (?s, Post file_bytes # concat (replicate (k - 1) [Get loc, Sleep 1]) @ [Get loc])"
    by (simp add: extract_text_from_receipt_def)
  from r polls_return_trace [of file_bytes "k - 1" loc] assms(3) show ?thesis by simp
qed

text \<open>
  The theorem at a service whose third poll succeeds with two pages; the lines are padded
  with spaces, U+00A0 and U+3000, and one line is a lone U+00A0.
\<close>

theorem succeeded_returns_lines_witness:
  "extract_text_from_receipt (third_poll_service padded_pages) ''jpeg'' =
     (''Milk 3'' @ [CHR 0x0A] @ ''Chips 4'',
      [Post ''jpeg'', Get job_url, Sleep 1, Get job_url, Sleep 1, Get job_url]) \<and>
   polls (snd (extract_text_from_receipt (third_poll_service padded_pages) ''jpeg'')) = 3"
proof -
  let ?srv = "third_poll_service padded_pages"
  have 1: "submit_job ?srv ''jpeg'' = Inr job_url" by (rule accepted_job)
  have 2: "truthy job_url" by (simp add: job_url_def)
  have 3: "(1::nat) \<le> 3" and 4: "(3::nat) \<le> 60" by simp_all
  have 5: "\<forall>i<3 - 1. pending (operation ?srv job_url i)"
    by (simp add: third_poll_service_def pending_running)
  have 6: "status_is ''succeeded'' (operation ?srv job_url (3 - 1))"
    by (simp add: third_poll_service_def status_is_def ok_response_def padded_pages_def
          lower_succeeded)
  have 7: "read_results (operation ?srv job_url (3 - 1))
             [['' Milk 3 '', nbsp], [nbsp @ ''Chips 4'' @ ideographic_space]]"
    by (simp add: third_poll_service_def read_results_def ok_response_def padded_pages_def)
  have 8: "kept_lines [['' Milk 3 '', nbsp], [nbsp @ ''Chips 4'' @ ideographic_space]] =
             [''Milk 3'', ''Chips 4'']"
    unfolding kept_lines_def by (simp add: strip_examples del: append.simps)
  have 9: "concat (replicate (3 - 1) [Get job_url, Sleep 1]) =
             [Get job_url, Sleep 1, Get job_url, Sleep 1]"
    by (simp add: numeral_2_eq_2)
  from succeeded_returns_lines [OF 1 2 3 4 5 6 7] show ?thesis
    unfolding 8 9 by (simp add: polls_def)
qed

text \<open>
  Claim C8. Let the submission give a job handle, let \<open>1 \<le> k \<le> 60\<close>, let the polls
  before the \<open>k\<close>-th be pending and the \<open>k\<close>-th be answered with the status
  \<^verbatim>\<open>failed\<close>. Then the function returns the failure message from that poll: its
  effects end with the \<open>k\<close>-th poll, with no sleep and no poll after it.
\<close>

theorem failed_returns_at_once:
  assumes "submit_job srv file_bytes = Inr loc" and "truthy loc"
      and "1 \<le> k" and "k \<le> 60"
      and "\<forall>i<k - 1. pending (operation srv loc i)"
      and "status_is ''failed'' (operation srv loc (k - 1))"
  shows "extract_text_from_receipt srv file_bytes =
           (failed_msg, Post file_bytes # concat (replicate (k - 1) [Get loc, Sleep 1]) @ [Get loc]) \<and>
         polls (snd (extract_text_from_receipt srv file_bytes)) = k"
proof -
  from assms(3,4) have j: "k - 1 < 60" by simp
  from failed_body [OF assms(6)]
  have body: "poll_body (operation srv loc (k - 1)) = Inr (Some failed_msg)" .
  from poll_loop_return_at [OF assms(5) j body, of "[Post file_bytes]"] assms(1,2)
  have r: "extract_text_from_receipt srv file_bytes =
            (failed_msg, Post file_bytes # concat (replicate (k - 1) [Get loc, Sleep 1]) @ [Get loc])"
    by (simp add: extract_text_from_receipt_def)
  from r polls_return_trace [of file_bytes "k - 1" loc] assms(3) show ?thesis by simp
qed

text \<open>The scenario of the specification: the job fails on attempt 3.\<close>

theorem failed_returns_at_once_witness:
  "extract_text_from_receipt (third_poll_service (PDict [(''status'', PStr ''failed'')])) ''jpeg'' =
     (failed_msg, [Post ''jpeg'', Get job_url, Sleep 1, Get job_url, Sleep 1, Get job_url]) \<and>
   polls (snd (extract_text_from_receipt
                 (third_poll_service (PDict [(''status'', PStr ''failed'')])) ''jpeg'')) = 3"
proof -
  let ?srv = "third_poll_service (PDict [(''status'', PStr ''failed'')])"
  have 1: "submit_job ?srv ''jpeg'' = Inr job_url" by (rule accepted_job)
  have 2: "truthy job_url" by (simp add: job_url_def)
  have 3: "(1::nat) \<le> 3" and 4: "(3::nat) \<le> 60" by simp_all
  have 5: "\<forall>i<3 - 1. pending (operation ?srv job_url i)"
    by (simp add: third_poll_service_def pending_running)
  have "lower ''failed'' = ''failed''" by code_simp
  then have 6: "status_is ''failed'' (operation ?srv job_url (3 - 1))"
    by (simp add: third_poll_service_def status_is_def ok_response_def)
  have 9: "concat (replicate (3 - 1) [Get job_url, Sleep 1]) =
             [Get job_url, Sleep 1, Get job_url, Sleep 1]"
    by (simp add: numeral_2_eq_2)
  from failed_returns_at_once [OF 1 2 3 4 5 6] show ?thesis
    unfolding 9 by (simp add: polls_def)
qed

text \<open>
  Claim C9 holds of the specification and the code misses it. Lines 93 and 94 return the
  message that no valid operation location came back, and a submission answered with a
  JSON object that lacks \<^verbatim>\<open>operationLocation\<close> gets it (second part below). But line 92
  calls \<^verbatim>\<open>submit.json()\<close> unguarded: \<open>bare_service\<close> answers the submission with a
  success status, no \<^verbatim>\<open>Operation-Location\<close> header and a body that is not JSON, so the
  response carries no job handle, the call raises \<^verbatim>\<open>JSONDecodeError\<close> before line 93 is
  reached, and the catch-all handler returns the generic \<^verbatim>\<open>OCR error\<close> message instead.
  No poll is made in either case.
\<close>

theorem no_job_handle_failing_input:
  "analyze bare_service ''jpeg'' = Inr bare_response \<and>
   raise_for_status bare_response = None \<and>
   no_job_handle bare_response \<and>
   extract_text_from_receipt bare_service ''jpeg'' =
     (ocr_error_msg (JSONDecodeError ''Expecting value: line 1 column 1 (char 0)''),
      [Post ''jpeg'']) \<and>
   fst (extract_text_from_receipt bare_service ''jpeg'') \<noteq> no_location_msg \<and>
   no_job_handle (ok_response (PDict [(''error'', PStr ''busy'')])) \<and>
   extract_text_from_receipt keyless_service ''jpeg'' = (no_location_msg, [Post ''jpeg''])"
  by (simp add: bare_service_def bare_response_def keyless_service_def ok_response_def
        no_job_handle_def extract_text_from_receipt_def submit_job_def op_location_def
        ocr_error_msg_def no_location_msg_def)

text \<open>
  Claim C10. The loop compares the lower-cased status. For a poll answered with a JSON
  object: a status string whose lower-case form is \<^verbatim>\<open>succeeded\<close> takes the success
  branch (the result is what the flattening of the result gives), one whose lower-case
  form is \<^verbatim>\<open>failed\<close> returns the failure message, whatever the case of its letters;
  and an object with no \<^verbatim>\<open>status\<close> key is not terminal: the loop logs the poll,
  sleeps and goes on with the next pass.
\<close>

theorem status_case_insensitive:
  assumes "raise_for_status poll = None" and "json poll = Inr (PDict kvs)"
  shows "(map_of kvs ''status'' = Some (PStr s) \<and> lower s = ''succeeded'' \<longrightarrow>
            poll_body (Inr poll) =
              (case succeeded_text (PDict kvs) of Inl e \<Rightarrow> Inl e | Inr t \<Rightarrow> Inr (Some t))) \<and>
         (map_of kvs ''status'' = Some (PStr s) \<and> lower s = ''failed'' \<longrightarrow>
            poll_body (Inr poll) = Inr (Some failed_msg)) \<and>
         (map_of kvs ''status'' = None \<and> operation srv loc k = Inr poll \<longrightarrow>
            poll_loop srv loc k (Suc n) trace =
              poll_loop srv loc (Suc k) n (trace @ [Get loc, Sleep 1]))"
  using assms by (simp add: poll_body_def lower_Nil)

text \<open>The theorem at the statuses \<^verbatim>\<open>FAILED\<close> and \<^verbatim>\<open>Succeeded\<close>, and at an answer \<^verbatim>\<open>{}\<close>.\<close>

theorem status_case_insensitive_witness:
  "poll_body (Inr (ok_response (PDict [(''status'', PStr ''FAILED'')]))) = Inr (Some failed_msg) \<and>
   poll_body (Inr (ok_response two_pages)) = Inr (Some (''Milk 3'' @ [CHR 0x0A] @ ''Chips 4'')) \<and>
   poll_loop (third_poll_service (PDict [])) job_url 2 (Suc 0) [] =
     (Inr None, [Get job_url, Sleep 1])"
proof -
  have ok: "raise_for_status (ok_response body) = None" "json (ok_response body) = Inr body"
    for body by (simp_all add: ok_response_def)
  have a: "poll_body (Inr (ok_response (PDict [(''status'', PStr ''FAILED'')]))) =
             Inr (Some failed_msg)"
    using status_case_insensitive
      [of "ok_response (PDict [(''status'', PStr ''FAILED'')])"
          "[(''status'', PStr ''FAILED'')]" "''FAILED''", OF ok]
    by (simp add: lower_FAILED)
  have st: "succeeded_text two_pages = Inr (''Milk 3'' @ [CHR 0x0A] @ ''Chips 4'')"
    by (simp add: succeeded_text_def two_pages_def two_pages_fields_def strip_examples)
  have b: "poll_body (Inr (ok_response two_pages)) =
             Inr (Some (''Milk 3'' @ [CHR 0x0A] @ ''Chips 4''))"
    using status_case_insensitive
      [of "ok_response two_pages" two_pages_fields "''Succeeded''"] st
    by (simp add: lower_Succeeded ok_response_def two_pages_def two_pages_fields_def)
  have c: "poll_loop (third_poll_service (PDict [])) job_url 2 (Suc 0) [] =
             (Inr None, [Get job_url, Sleep 1])"
    using status_case_insensitive
      [of "ok_response (PDict [])" "[]" _ "third_poll_service (PDict [])" job_url 2 0 "[]", OF ok]
    by (simp add: third_poll_service_def)
  from a b c show ?thesis by simp
qed

section \<open>Properties of the classification client\<close>

text \<open>Which exceptions the steps of the \<^verbatim>\<open>try\<close> body can raise.\<close>

lemma py_item_exn:
  "py_item v k = Inl e \<Longrightarrow> (\<exists>m. e = KeyError m \<or> e = TypeError m)"
  by (cases v) (auto split: option.splits)

lemma py_first_exn:
  "py_first v = Inl e \<Longrightarrow> (\<exists>m. e = KeyError m \<or> e = IndexError m \<or> e = TypeError m)"
  by (cases v rule: py_first.cases) auto

lemma completion_content_exn:
  assumes "completion_content payload = Inl e"
  shows "\<exists>m. e = KeyError m \<or> e = IndexError m \<or> e = TypeError m"
proof (cases "py_item payload ''choices''")
  case (Inl e1)
  with assms have "e = e1" by (simp add: completion_content_def)
  with py_item_exn [OF Inl] show ?thesis by blast
next
  case choices: (Inr choices)
  show ?thesis
  proof (cases "py_first choices")
    case (Inl e1)
    with assms choices have "e = e1" by (simp add: completion_content_def)
    with py_first_exn [OF Inl] show ?thesis by blast
  next
    case choice: (Inr choice)
    show ?thesis
    proof (cases "py_item choice ''message''")
      case (Inl e1)
      with assms choices choice have "e = e1" by (simp add: completion_content_def)
      with py_item_exn [OF Inl] show ?thesis by blast
    next
      case (Inr message)
      with assms choices choice have "py_item message ''content'' = Inl e"
        by (simp add: completion_content_def)
      from py_item_exn [OF this] show ?thesis by blast
    qed
  qed
qed

lemma classify_except_other:
  "(\<exists>m. e = KeyError m \<or> e = IndexError m \<or> e = TypeError m) \<Longrightarrow>
   classify_except resp payload e = (Inr PNone, [StError (unexpected_msg e)])"
  by auto

lemma py_json_loads_exn:
  "py_json_loads loads content = Inl e \<Longrightarrow>
     (\<exists>s m. content = PStr s \<and> loads s = Inl m \<and> e = JSONDecodeError m) \<or> (\<exists>m. e = TypeError m)"
  by (cases content) (auto split: sum.splits)

lemma py_json_loads_ok:
  "py_json_loads loads content = Inr data \<Longrightarrow> \<exists>s. content = PStr s \<and> loads s = Inr data"
  by (cases content) (auto split: sum.splits)

text \<open>The outcome of the whole function, by the stage at which the request stops.\<close>

lemma classify_cases:
  "(\<exists>m. completions t = Inl m \<and>
        classify_items_with_ai loads completions t =
          (Inr PNone, [StError (unexpected_msg (RequestException m))])) \<or>
   (\<exists>resp m. completions t = Inr resp \<and> raise_for_status resp = Some m \<and>
        classify_items_with_ai loads completions t =
          (Inr PNone, [StError ''Azure OpenAI HTTP error'',
            (case json resp of Inr body \<Rightarrow> StJson body
             | Inl _ \<Rightarrow> StWrite [Str (PStr (resp_text resp))])])) \<or>
   (\<exists>resp m. completions t = Inr resp \<and> raise_for_status resp = None \<and> json resp = Inl m \<and>
        classify_items_with_ai loads completions t =
          (Inr PNone, [StError invalid_json_msg, StWrite [Str (PStr ''(no content)'')]])) \<or>
   (\<exists>resp payload e. completions t = Inr resp \<and> raise_for_status resp = None \<and>
        json resp = Inr payload \<and> completion_content payload = Inl e \<and>
        classify_items_with_ai loads completions t = (Inr PNone, [StError (unexpected_msg e)])) \<or>
   (\<exists>resp payload content m. completions t = Inr resp \<and> raise_for_status resp = None \<and>
        json resp = Inr payload \<and> completion_content payload = Inr content \<and>
        py_json_loads loads content = Inl (TypeError m) \<and>
        classify_items_with_ai loads completions t =
          (Inr PNone, [StError (unexpected_msg (TypeError m))])) \<or>
   (\<exists>resp payload s m. completions t = Inr resp \<and> raise_for_status resp = None \<and>
        json resp = Inr payload \<and> completion_content payload = Inr (PStr s) \<and>
        loads s = Inl m \<and>
        classify_items_with_ai loads completions t =
          (Inr PNone, [StError invalid_json_msg, StWrite [Str (PStr s)]])) \<or>
   (\<exists>resp payload s data. completions t = Inr resp \<and> raise_for_status resp = None \<and>
        json resp = Inr payload \<and> completion_content payload = Inr (PStr s) \<and>
        loads s = Inr data \<and>
        classify_items_with_ai loads completions t = (Inr data, []))"
proof (cases "completions t")
  case (Inl m)
  then show ?thesis by (simp add: classify_items_with_ai_def)
next
  case resp: (Inr resp)
  show ?thesis
  proof (cases "raise_for_status resp")
    case (Some m)
    with resp show ?thesis by (simp add: classify_items_with_ai_def classify_try_def)
  next
    case ok: None
    show ?thesis
    proof (cases "json resp")
      case (Inl m)
      with resp ok show ?thesis by (simp add: classify_items_with_ai_def classify_try_def)
    next
      case payload: (Inr payload)
      show ?thesis
      proof (cases "completion_content payload")
        case (Inl e)
        from classify_except_other [OF completion_content_exn [OF Inl]] resp ok payload Inl
        show ?thesis by (simp add: classify_items_with_ai_def classify_try_def)
      next
        case content: (Inr content)
        show ?thesis
        proof (cases "py_json_loads loads content")
          case (Inr data)
          from py_json_loads_ok [OF this] obtain s where "content = PStr s" "loads s = Inr data"
            by blast
          with resp ok payload content Inr show ?thesis
            by (simp add: classify_items_with_ai_def classify_try_def)
        next
          case (Inl e)
          from py_json_loads_exn [OF this]
          consider s m where "content = PStr s" "loads s = Inl m" "e = JSONDecodeError m"
            | m where "e = TypeError m" by blast
          then show ?thesis
          proof cases
            case 1
            with resp ok payload content Inl show ?thesis
              by (simp add: classify_items_with_ai_def classify_try_def)
          next
            case 2
            with resp ok payload content Inl show ?thesis
              by (simp add: classify_items_with_ai_def classify_try_def)
          qed
        qed
      qed
    qed
  qed
qed

lemma classify_outcome:
  "\<exists>data shown. classify_items_with_ai loads completions t = (Inr data, shown) \<and>
      ((data = PNone \<and> shown \<noteq> []) \<or>
       (shown = [] \<and>
        (\<exists>resp payload s. completions t = Inr resp \<and> raise_for_status resp = None \<and>
           json resp = Inr payload \<and> completion_content payload = Inr (PStr s) \<and>
           loads s = Inr data)))"
  (is "?G")
proof -
  have none: ?G if "classify_items_with_ai loads completions t = (Inr PNone, x # xs)" for x xs
  proof (intro exI conjI)
    show "classify_items_with_ai loads completions t = (Inr PNone, x # xs)" by (rule that)
    show "(PNone = PNone \<and> x # xs \<noteq> []) \<or>
       (x # xs = [] \<and>
        (\<exists>resp payload s. completions t = Inr resp \<and> raise_for_status resp = None \<and>
           json resp = Inr payload \<and> completion_content payload = Inr (PStr s) \<and>
           loads s = Inr PNone))" by simp
  qed
  have whole: ?G
    if "completions t = Inr resp" "raise_for_status resp = None" "json resp = Inr payload"
       "completion_content payload = Inr (PStr s)" "loads s = Inr data"
       "classify_items_with_ai loads completions t = (Inr data, [])"
    for resp payload s data
  proof (intro exI conjI)
    show "classify_items_with_ai loads completions t = (Inr data, [])" by (rule that)
    from that(1-5)
    have "\<exists>resp payload s. completions t = Inr resp \<and> raise_for_status resp = None \<and>
           json resp = Inr payload \<and> completion_content payload = Inr (PStr s) \<and>
           loads s = Inr data" by blast
    then show "(data = PNone \<and> [] \<noteq> []) \<or>
       ([] = [] \<and>
        (\<exists>resp payload s. completions t = Inr resp \<and> raise_for_status resp = None \<and>
           json resp = Inr payload \<and> completion_content payload = Inr (PStr s) \<and>
           loads s = Inr data))" by blast
  qed
  from classify_cases [of completions t loads] show ?G
    apply (elim disjE exE conjE)
          apply (erule none)
         apply (erule none)
        apply (erule none)
       apply (erule none)
      apply (erule none)
     apply (erule none)
    apply (erule (5) whole)
    done
qed

lemma chat_reply_content: "completion_content (PDict
   [(''choices'', PList [PDict [(''index'', PInt 0),
         (''message'', PDict [(''role'', PStr ''assistant''), (''content'', PStr c)])]])]) = Inr (PStr c)"
  by (simp add: completion_content_def)




text \<open>
  Claim C7, as stated, fails. The client returns whatever value \<^verbatim>\<open>json.loads\<close> gives for
  the content: when the completion is the object
  \<^verbatim>\<open>{"essentials": [{"item": "Milk", "price": 3}]}\<close> the client returns that object, which
  is a result (not \<^verbatim>\<open>None\<close>) and holds neither \<^verbatim>\<open>non_essentials\<close> nor
  \<^verbatim>\<open>suggestions\<close>.
\<close>

theorem partial_result_counterexample:
  "classify_items_with_ai json_loads_example partial_completions ''Milk - 3'' =
     (Inr partial_result, []) \<and>
   partial_result \<noteq> PNone \<and> \<not> complete_result partial_result"
  by (simp add: classify_items_with_ai_def classify_try_def partial_completions_def
        chat_reply_def ok_response_def chat_reply_content json_loads_example_def
        partial_result_def)

text \<open>Reading the three keys with the default \<^verbatim>\<open>[]\<close>.\<close>

lemma py_get_defaults:
  assumes "k = ''essentials'' \<or> k = ''non_essentials'' \<or> k = ''suggestions''"
  shows "py_get (PDict (kvs @ empty_sequences)) k (PList []) = py_get (PDict kvs) k (PList [])"
  using assms by (cases "map_of kvs k") (auto simp: empty_sequences_def map_add_def)

lemma analysis_defaults:
  assumes "kvs \<noteq> []"
  shows "analysis p parse (PDict kvs) = analysis p parse (PDict (kvs @ empty_sequences))"
proof -
  have "truthy (PDict kvs)" "truthy (PDict (kvs @ empty_sequences))" using assms by simp_all
  then show ?thesis
    unfolding analysis_def
    by (simp only: py_get_defaults simp_thms if_False)
qed

text \<open>
  Claim C7, amended. For every call the client returns either \<^verbatim>\<open>None\<close>, with an error
  shown, or, with nothing shown, the whole value that \<^verbatim>\<open>json.loads\<close> gave for the
  content of the first completion; it does not check that the three sequences are there.
  The callers read a result through \<^verbatim>\<open>data.get(key, [])\<close>: they treat a non-empty object
  as the same object completed with the missing sequences empty.
\<close>

theorem classify_whole_or_none:
  "(\<exists>data shown. classify_items_with_ai loads completions t = (Inr data, shown) \<and>
      ((data = PNone \<and> shown \<noteq> []) \<or>
       (shown = [] \<and>
        (\<exists>resp payload s. completions t = Inr resp \<and> raise_for_status resp = None \<and>
           json resp = Inr payload \<and> completion_content payload = Inr (PStr s) \<and>
           loads s = Inr data)))) \<and>
   (kvs \<noteq> [] \<longrightarrow>
      analysis p parse (PDict kvs) = analysis p parse (PDict (kvs @ empty_sequences)))"
  using classify_outcome [of loads completions t] analysis_defaults [of kvs p parse]
  by blast

text \<open>The amended claim at the partial object above.\<close>

theorem classify_whole_or_none_witness:
  "analysis text_half_prefix (\<lambda>s. None) partial_result =
   analysis text_half_prefix (\<lambda>s. None)
     (PDict [(''essentials'', PList [PDict [(''item'', PStr ''Milk''), (''price'', PInt 3)]]),
             (''essentials'', PList []), (''non_essentials'', PList []),
             (''suggestions'', PList [])])"
  using classify_whole_or_none
    [of json_loads_example partial_completions "''Milk - 3''"
        "[(''essentials'', PList [PDict [(''item'', PStr ''Milk''), (''price'', PInt 3)]])]"
        text_half_prefix "\<lambda>s. None"]
  by (simp add: partial_result_def empty_sequences_def)

section \<open>Properties of the analysis\<close>

lemma py_get_exn: "py_get v k d = Inl e \<Longrightarrow> \<exists>m. e = AttributeError m"
  by (cases v) auto

lemma py_get_dict: "py_get v k d = Inr x \<Longrightarrow> \<exists>kvs. v = PDict kvs"
  by (cases v) auto

lemma py_iter_exn: "py_iter v = Inl e \<Longrightarrow> \<exists>m. e = TypeError m"
  by (cases v) auto

lemma safe_sum_exn: "safe_sum parse v = Inl e \<Longrightarrow> \<exists>m. e = TypeError m"
  by (auto simp: safe_sum_def split: sum.splits dest: py_iter_exn)

lemma gt_zero_not_zero: "gt_zero x \<Longrightarrow> \<not> is_zero x"
  by (cases x) (simp_all add: is_zero_def)

lemma savings_section_rendered:
  "savings_section p total_spent saving_remove saving_half =
     (if gt_zero total_spent
      then [StSubheader savings_title,
            remove_line saving_remove (ieee_div saving_remove total_spent),
            half_line p saving_half (ieee_div saving_half total_spent)]
      else [], None)"
  by (simp add: savings_section_def py_truediv_def gt_zero_not_zero)

lemma halving: "py_truediv x (Fin 2) = Inr (ieee_div x (Fin 2))"
  by (simp add: py_truediv_def is_zero_def)

lemma suggestions_section_exn:
  "snd (suggestions_section sg) = Some e \<Longrightarrow> \<exists>m. e = TypeError m"
  by (auto simp: suggestions_section_def split: if_splits sum.splits dest: py_iter_exn)

lemma suggestions_section_shown:
  "x \<in> set (fst (suggestions_section sg)) \<Longrightarrow>
     x = StSubheader suggestions_title \<or> (\<exists>s. x = StWrite [Lit ''- '', Str s])"
  by (auto simp: suggestions_section_def split: if_splits sum.splits)

lemma analysis_rendered:
  assumes "truthy data"
      and "py_get data ''essentials'' (PList []) = Inr es"
      and "py_get data ''non_essentials'' (PList []) = Inr ns"
      and "safe_sum parse es = Inr e" and "safe_sum parse ns = Inr n"
  obtains sg where "py_get data ''suggestions'' (PList []) = Inr sg"
    and "analysis p parse data =
           (summary_section (fadd e n) e n @
            fst (savings_section p (fadd e n) n (ieee_div n (Fin 2))) @
            fst (suggestions_section sg) @
            (if snd (suggestions_section sg) = None then tables_section es ns else []),
            snd (suggestions_section sg))"
proof -
  from py_get_dict [OF assms(2)] obtain kvs where d: "data = PDict kvs" by blast
  define sg where "sg = (case map_of kvs ''suggestions'' of Some v \<Rightarrow> v | None \<Rightarrow> PList [])"
  have 1: "py_get data ''suggestions'' (PList []) = Inr sg" by (simp add: d sg_def)
  have 2: "analysis p parse data =
           (summary_section (fadd e n) e n @
            fst (savings_section p (fadd e n) n (ieee_div n (Fin 2))) @
            fst (suggestions_section sg) @
            (if snd (suggestions_section sg) = None then tables_section es ns else []),
            snd (suggestions_section sg))"
    using assms 1
    by (cases "suggestions_section sg")
       (auto simp: analysis_def Let_def halving savings_section_rendered split: option.splits)
  from 1 2 that show thesis by blast
qed

lemma analysis_exn:
  assumes "snd (analysis p parse data) = Some x"
  shows "\<exists>m. x = AttributeError m \<or> x = TypeError m"
proof (cases "truthy data")
  case False
  with assms show ?thesis by (simp add: analysis_def)
next
  case True
  show ?thesis
  proof (cases "py_get data ''essentials'' (PList [])")
    case (Inl e)
    with assms True have "x = e" by (simp add: analysis_def)
    with py_get_exn [OF Inl] show ?thesis by blast
  next
    case es: (Inr es)
    from py_get_dict [OF es] obtain kvs where d: "data = PDict kvs" by blast
    then obtain ns where ns: "py_get data ''non_essentials'' (PList []) = Inr ns" by simp
    from d obtain sg0 where sg0: "py_get data ''suggestions'' (PList []) = Inr sg0" by simp
    show ?thesis
    proof (cases "safe_sum parse es")
      case (Inl e)
      with assms True es ns sg0 have "x = e" by (simp add: analysis_def)
      with safe_sum_exn [OF Inl] show ?thesis by blast
    next
      case e: (Inr e)
      show ?thesis
      proof (cases "safe_sum parse ns")
        case (Inl e')
        with assms True es ns sg0 e have "x = e'" by (simp add: analysis_def)
        with safe_sum_exn [OF Inl] show ?thesis by blast
      next
        case (Inr n)
        from analysis_rendered [OF True es ns e Inr, of p] assms
        obtain sg where "snd (suggestions_section sg) = Some x" by (metis snd_conv)
        from suggestions_section_exn [OF this] show ?thesis by blast
      qed
    qed
  qed
qed

lemma titles_distinct:
  "savings_title \<noteq> summary_title" "savings_title \<noteq> suggestions_title"
  "savings_title \<noteq> essentials_title" "savings_title \<noteq> non_essentials_title"
  by (simp_all add: savings_title_def summary_title_def suggestions_title_def
        essentials_title_def non_essentials_title_def)

lemma no_savings_shown:
  assumes x: "x \<in> set (summary_section t e n) \<union> set (fst (suggestions_section sg)) \<union>
                set (tables_section es ns)"
  shows "x \<noteq> StSubheader savings_title" and "x = StWrite fs \<Longrightarrow> Fixed 1 y \<notin> set fs"
proof -
  from x consider "x \<in> set (summary_section t e n)" | "x \<in> set (fst (suggestions_section sg))"
    | "x \<in> set (tables_section es ns)" by blast
  then have "x \<noteq> StSubheader savings_title \<and> (x = StWrite fs \<longrightarrow> Fixed 1 y \<notin> set fs)"
  proof cases
    case 1
    then show ?thesis using titles_distinct(1) by (auto simp: summary_section_def)
  next
    case 2
    from suggestions_section_shown [OF this] show ?thesis using titles_distinct(2) by auto
  next
    case 3
    then show ?thesis using titles_distinct(3,4) by (auto simp: tables_section_def)
  qed
  then show "x \<noteq> StSubheader savings_title" and "x = StWrite fs \<Longrightarrow> Fixed 1 y \<notin> set fs"
    by simp_all
qed

lemma analysis_zero_total:
  assumes es: "py_get data ''essentials'' (PList []) = Inr es"
      and ns: "py_get data ''non_essentials'' (PList []) = Inr ns"
      and e: "safe_sum parse es = Inr e" and n: "safe_sum parse ns = Inr n"
      and z: "is_zero (fadd e n)"
  shows "\<exists>sg. set (fst (analysis p parse data)) \<subseteq>
           set (summary_section (fadd e n) e n) \<union> set (fst (suggestions_section sg)) \<union>
           set (tables_section es ns)"
proof (cases "truthy data")
  case False
  then show ?thesis by (simp add: analysis_def)
next
  case True
  from analysis_rendered [OF True es ns e n, of p] obtain sg where
    r: "analysis p parse data =
           (summary_section (fadd e n) e n @
            fst (savings_section p (fadd e n) n (ieee_div n (Fin 2))) @
            fst (suggestions_section sg) @
            (if snd (suggestions_section sg) = None then tables_section es ns else []),
            snd (suggestions_section sg))" by blast
  have "\<not> gt_zero (fadd e n)" using z gt_zero_not_zero by blast
  then have "fst (savings_section p (fadd e n) n (ieee_div n (Fin 2))) = []"
    by (simp add: savings_section_rendered)
  with r have "fst (analysis p parse data) =
      summary_section (fadd e n) e n @ fst (suggestions_section sg) @
      (if snd (suggestions_section sg) = None then tables_section es ns else [])"
    by simp
  then have "set (fst (analysis p parse data)) \<subseteq>
           set (summary_section (fadd e n) e n) \<union> set (fst (suggestions_section sg)) \<union>
           set (tables_section es ns)"
    by (cases "snd (suggestions_section sg) = None") auto
  then show ?thesis ..
qed

text \<open>The sums of the example classifications.\<close>

lemma safe_sum_water:
  "safe_sum (\<lambda>s. None)
     (PList [PDict [(''item'', PStr ''Water''), (''quantity'', PInt 1), (''price'', PInt 0)]]) =
   Inr (Fin 0)"
  "safe_sum (\<lambda>s. None) (PList []) = Inr (Fin 0)"
  by (simp_all add: safe_sum_def py_or_def price_float_def int_to_double_zero fadd_zero_right)

lemma safe_sum_milk_chips:
  "safe_sum (\<lambda>s. None)
     (PList [PDict [(''item'', PStr ''Milk''), (''quantity'', PInt 1), (''price'', PInt 3)]]) =
   Inr (Fin 3)"
  "safe_sum (\<lambda>s. None)
     (PList [PDict [(''item'', PStr ''Chips''), (''quantity'', PInt 1), (''price'', PInt 4)]]) =
   Inr (Fin 4)"
  using safe_sum_int [of _ "[3]"] safe_sum_int [of _ "[4]"] by simp_all

text \<open>
  The arithmetic of the scenario: 3.0 + 4.0, 4.0 / 2.0, and the doubles nearest to 4/7
  and 2/7.
\<close>

lemma milk_chips_arithmetic:
  "fadd (Fin 3) (Fin 4) = Fin 7"
  "ieee_div (Fin 4) (Fin 2) = Fin 2"
  "ieee_div (Fin 4) (Fin 7) = Fin (2573485501354569 / 4503599627370496)"
  "ieee_div (Fin 2) (Fin 7) = Fin (2573485501354569 / 9007199254740992)"
  using fadd_int [of 3 4] rnd_int [of 2]
        rnd_near [of "- 1" "4 / 7" 5146971002709138]
        rnd_near [of "- 2" "2 / 7" 5146971002709138]
  by (simp_all add: ieee_div_def is_inf_def is_zero_def pow2_def)

text \<open>
  Claim C4. The savings block never raises: its divisions are made only under the guard
  \<^verbatim>\<open>total_spent > 0\<close>. When the total is 0 (the float \<open>0.0\<close> or \<open>-0.0\<close>) the block
  shows nothing and computes no percentage. For the whole analysis: it never ends in a
  \<^verbatim>\<open>ZeroDivisionError\<close>, and when the two sums add up to 0 its output holds no savings
  header and no percentage (the percentages are the only numbers shown with one decimal).
\<close>

theorem no_division_by_zero:
  "snd (savings_section p total_spent saving_remove saving_half) = None \<and>
   (is_zero total_spent \<longrightarrow>
      savings_section p total_spent saving_remove saving_half = ([], None)) \<and>
   (\<forall>m. snd (analysis p parse data) \<noteq> Some (ZeroDivisionError m)) \<and>
   (py_get data ''essentials'' (PList []) = Inr es \<and>
    py_get data ''non_essentials'' (PList []) = Inr ns \<and>
    safe_sum parse es = Inr e \<and> safe_sum parse ns = Inr n \<and> is_zero (fadd e n) \<longrightarrow>
      StSubheader savings_title \<notin> set (fst (analysis p parse data)) \<and>
      (\<forall>fs x. StWrite fs \<in> set (fst (analysis p parse data)) \<longrightarrow> Fixed 1 x \<notin> set fs))"
proof -
  have 1: "snd (savings_section p total_spent saving_remove saving_half) = None"
    by (simp add: savings_section_rendered)
  have 2: "is_zero total_spent \<longrightarrow>
             savings_section p total_spent saving_remove saving_half = ([], None)"
    using gt_zero_not_zero [of total_spent] by (auto simp: savings_section_rendered)
  have 3: "\<forall>m. snd (analysis p parse data) \<noteq> Some (ZeroDivisionError m)"
  proof (intro allI notI)
    fix m assume "snd (analysis p parse data) = Some (ZeroDivisionError m)"
    from analysis_exn [OF this] show False by simp
  qed
  have 4: "StSubheader savings_title \<notin> set (fst (analysis p parse data)) \<and>
      (\<forall>fs x. StWrite fs \<in> set (fst (analysis p parse data)) \<longrightarrow> Fixed 1 x \<notin> set fs)"
    if a: "py_get data ''essentials'' (PList []) = Inr es"
          "py_get data ''non_essentials'' (PList []) = Inr ns"
          "safe_sum parse es = Inr e" "safe_sum parse ns = Inr n" "is_zero (fadd e n)"
  proof -
    from analysis_zero_total [OF a, of p] obtain sg where
      sub: "set (fst (analysis p parse data)) \<subseteq>
           set (summary_section (fadd e n) e n) \<union> set (fst (suggestions_section sg)) \<union>
           set (tables_section es ns)" by blast
    have "StSubheader savings_title \<notin> set (fst (analysis p parse data))"
    proof
      assume "StSubheader savings_title \<in> set (fst (analysis p parse data))"
      with sub have "StSubheader savings_title \<in> set (summary_section (fadd e n) e n) \<union>
          set (fst (suggestions_section sg)) \<union> set (tables_section es ns)" by (rule subsetD)
      from no_savings_shown(1) [OF this] show False by simp
    qed
    moreover have "Fixed 1 x \<notin> set fs" if "StWrite fs \<in> set (fst (analysis p parse data))"
      for fs x
    proof -
      from that sub have "StWrite fs \<in> set (summary_section (fadd e n) e n) \<union>
          set (fst (suggestions_section sg)) \<union> set (tables_section es ns)" by (rule rev_subsetD)
      from no_savings_shown(2) [OF this refl] show ?thesis .
    qed
    ultimately show ?thesis by blast
  qed
  from 1 2 3 4 show ?thesis by blast
qed

text \<open>The theorem at a classification whose only item costs 0, in the receipt tab.\<close>

theorem no_division_by_zero_witness:
  "savings_section receipt_half_prefix (Fin 0) (Fin 0) (Fin 0) = ([], None) \<and>
   snd (analysis receipt_half_prefix (\<lambda>s. None) free_samples) \<noteq>
     Some (ZeroDivisionError ''float division by zero'') \<and>
   StSubheader savings_title \<notin> set (fst (analysis receipt_half_prefix (\<lambda>s. None) free_samples))"
  using no_division_by_zero
    [of receipt_half_prefix "Fin 0" "Fin 0" "Fin 0" "\<lambda>s. None" free_samples
        "PList [PDict [(''item'', PStr ''Water''), (''quantity'', PInt 1), (''price'', PInt 0)]]"
        "PList []" "Fin 0" "Fin 0"]
  by (simp add: free_samples_def safe_sum_water fadd_zero_right is_zero_def)

text \<open>
  Claim C5. Let the result hold the sequences with sums \<open>e\<close> (essentials) and \<open>n\<close>
  (non-essentials), both non-negative. The analysis shows the total \<open>e + n\<close> with the two
  sums, and, when the total is positive, the saving \<open>n\<close> for removing the non-essentials
  and the saving \<open>n / 2\<close> for halving them, each with its share of the total in percent.
  The sum and the quotients are those of the floats: \<open>fadd e n\<close> is \<^verbatim>\<open>e + n\<close> and
  \<open>ieee_div n (Fin 2)\<close> is \<^verbatim>\<open>n / 2.0\<close>.
\<close>

theorem savings_scenarios:
  assumes "truthy data"
      and "py_get data ''essentials'' (PList []) = Inr es"
      and "py_get data ''non_essentials'' (PList []) = Inr ns"
      and "safe_sum parse es = Inr e" and "safe_sum parse ns = Inr n"
      and "ge_zero e" and "ge_zero n"
  shows "\<exists>rest. fst (analysis p parse data) =
           summary_section (fadd e n) e n @
           (if gt_zero (fadd e n)
            then [StSubheader savings_title, remove_line n (ieee_div n (fadd e n)),
                  half_line p (ieee_div n (Fin 2)) (ieee_div (ieee_div n (Fin 2)) (fadd e n))]
            else []) @ rest"
proof -
  from analysis_rendered [OF assms(1-5), of p] obtain sg where
    "analysis p parse data =
           (summary_section (fadd e n) e n @
            fst (savings_section p (fadd e n) n (ieee_div n (Fin 2))) @
            fst (suggestions_section sg) @
            (if snd (suggestions_section sg) = None then tables_section es ns else []),
            snd (suggestions_section sg))" by blast
  then show ?thesis by (simp add: savings_section_rendered)
qed

text \<open>
  The scenario of the specification: Milk 3 (essential) and Chips 4 (non-essential) give
  the total 7, the savings 4 and 2, and the shares \<^verbatim>\<open>4.0 / 7.0\<close> and \<^verbatim>\<open>2.0 / 7.0\<close>
  (shown as 57.1% and 28.6%), written here as the exact values of the two doubles.
\<close>

theorem savings_scenarios_witness:
  "\<exists>rest. fst (analysis text_half_prefix (\<lambda>s. None) milk_chips) =
     summary_section (Fin 7) (Fin 3) (Fin 4) @
     [StSubheader savings_title,
      remove_line (Fin 4) (Fin (2573485501354569 / 4503599627370496)),
      half_line text_half_prefix (Fin 2) (Fin (2573485501354569 / 9007199254740992))] @ rest"
  using savings_scenarios
    [of milk_chips
        "PList [PDict [(''item'', PStr ''Milk''), (''quantity'', PInt 1), (''price'', PInt 3)]]"
        "PList [PDict [(''item'', PStr ''Chips''), (''quantity'', PInt 1), (''price'', PInt 4)]]"
        "\<lambda>s. None" "Fin 3" "Fin 4" text_half_prefix]
  by (simp add: milk_chips_def safe_sum_milk_chips milk_chips_arithmetic)

end
